theory Spec2Isabelle
  imports Main "HOL-Library.Word" "HOL-Library.AList"
begin

unbundle bit_operations_syntax

section \<open>Values of the host language\<close>

text \<open>
  A Node.js \<open>Buffer\<close> is a list of bytes. A JavaScript string is a list of UTF-16 code
  units; \<open>str\<close> makes one of an ASCII literal. JavaScript numbers that hold integers are
  modelled as \<open>int\<close>, and the conversions that the bitwise operators apply to their operands
  are written out.
\<close>

type_synonym byte = "8 word"
type_synonym jsstring = "16 word list"

definition str :: "string \<Rightarrow> jsstring" where
  "str s = map (\<lambda>c. of_nat (of_char c)) s"

text \<open>
  \<open>a ^ b\<close> and \<open>a & b\<close>: both operands are converted to 32 bits; the result is a signed
  32-bit value.
\<close>

definition js_xor :: "int \<Rightarrow> int \<Rightarrow> int" where
  "js_xor a b = sint ((word_of_int a :: 32 word) XOR word_of_int b)"

definition js_and :: "int \<Rightarrow> int \<Rightarrow> int" where
  "js_and a b = sint ((word_of_int a :: 32 word) AND word_of_int b)"

text \<open>
  \<open>a >>> n\<close>: the left operand is converted to 32 bits, the shift count is taken modulo 32,
  and the result is unsigned.
\<close>

definition js_ushr :: "int \<Rightarrow> nat \<Rightarrow> int" where
  "js_ushr a n = uint (drop_bit (n mod 32) (word_of_int a :: 32 word))"

section \<open>Errors\<close>

datatype RconErrorType =
  CONNECTION_FAILED | AUTH_FAILED | TIMEOUT | INVALID_PACKET
  | NOT_AUTHENTICATED | SOCKET_ERROR | COMMAND_FAILED

text \<open>
  The message of an error. A template literal keeps the value it interpolates:
  \<open>PacketTooLarge size\<close> is \<^verbatim>\<open>`Packet too large: ${size} bytes (max 4110)`\<close> and
  \<open>FailedToExecute command\<close> is \<^verbatim>\<open>`Failed to execute command: ${command}`\<close>.
\<close>

datatype Message =
  Literal string | PacketTooLarge int | FailedToExecute jsstring | FailedToSend string

text \<open>
  \<open>RconError type message originalError\<close> is the class of the same name. \<open>RangeError\<close> is
  what Node's Buffer raises when a value does not fit the field it is written to or an
  offset is outside the buffer. \<open>SystemError message\<close> is an error that the transport hands
  to a callback.
\<close>

datatype Error = RconError RconErrorType Message "Error option" | RangeError | SystemError string

datatype ConnectionState =
  DISCONNECTED | CONNECTING | CONNECTED | AUTHENTICATING | AUTHENTICATED | ERROR

section \<open>Buffer primitives\<close>

text \<open>
  \<open>writeUInt32LE\<close> and \<open>writeInt32LE\<close> raise when the value is out of the field's range;
  otherwise they store the four bytes of the value, least significant first.
\<close>

definition le_bytes :: "int \<Rightarrow> byte list" where
  "le_bytes v = [word_of_int v, word_of_int (v div 256),
                 word_of_int (v div 65536), word_of_int (v div 16777216)]"

definition writeUInt32LE :: "int \<Rightarrow> Error + byte list" where
  "writeUInt32LE v = (if 0 \<le> v \<and> v \<le> 4294967295 then Inr (le_bytes v) else Inl RangeError)"

definition writeInt32LE :: "int \<Rightarrow> Error + byte list" where
  "writeInt32LE v =
     (if - 2147483648 \<le> v \<and> v \<le> 2147483647 then Inr (le_bytes v) else Inl RangeError)"

text \<open>
  The reads are used only where the source has checked that the buffer holds the bytes
  (\<open>length \<ge> 4\<close> before the size field, \<open>length \<ge> 7\<close> before the BattlEye header).
\<close>

definition readUInt32LE :: "byte list \<Rightarrow> nat \<Rightarrow> int" where
  "readUInt32LE buf off =
     uint (buf ! off) + 256 * uint (buf ! (off + 1)) + 65536 * uint (buf ! (off + 2))
       + 16777216 * uint (buf ! (off + 3))"

definition readInt32LE :: "byte list \<Rightarrow> nat \<Rightarrow> int" where
  "readInt32LE buf off =
     (let v = readUInt32LE buf off in if v \<ge> 2147483648 then v - 4294967296 else v)"

text \<open>
  \<open>Buffer.from(s, 'ascii')\<close> stores the low byte of every code unit (Node treats \<open>'ascii'\<close>
  as \<open>'latin1'\<close> when encoding). \<open>buf.toString('ascii')\<close> clears the highest bit of every
  byte before it makes a character of it. \<open>'ascii'\<close> is the default of the Source client's
  \<open>encoding\<close> option, and the encoding of this model.
\<close>

definition bufferFrom_ascii :: "jsstring \<Rightarrow> byte list" where
  "bufferFrom_ascii s = map ucast s"

definition toString_ascii :: "byte list \<Rightarrow> jsstring" where
  "toString_ascii buf = map (\<lambda>b. ucast (b AND 0x7F)) buf"

section \<open>BattlEye codec\<close>

subsection \<open>\<open>BattlEyeRconClient.calculateCRC32\<close>\<close>

text \<open>
  The inner loop body, the eight rounds for one byte, and the loop over the buffer. The
  accumulator \<open>crc\<close> is a JavaScript number: signed after \<open>^\<close>, unsigned after \<open>>>>\<close>.
\<close>

definition crc_round :: "int \<Rightarrow> int" where
  "crc_round crc =
     (if js_and crc 1 \<noteq> 0 then js_xor (js_ushr crc 1) 0xEDB88320 else js_ushr crc 1)"

definition crc_byte :: "int \<Rightarrow> byte \<Rightarrow> int" where
  "crc_byte crc b = (crc_round ^^ 8) (js_xor crc (uint b))"

definition calculateCRC32 :: "byte list \<Rightarrow> int" where
  "calculateCRC32 data = js_ushr (js_xor (foldl crc_byte 0xFFFFFFFF data) 0xFFFFFFFF) 0"

subsection \<open>The standard CRC32, on 32-bit words\<close>

text \<open>
  The reflected bitwise CRC32 as the specification words it: register initialised to
  \<open>0xFFFFFFFF\<close>, each byte XORed into the low end, eight shifts with the polynomial
  \<open>0xEDB88320\<close> XORed in whenever the bit shifted out is set, and a final XOR with
  \<open>0xFFFFFFFF\<close>.
\<close>

definition crc32_shift :: "32 word \<Rightarrow> 32 word" where
  "crc32_shift r = (if bit r 0 then drop_bit 1 r XOR 0xEDB88320 else drop_bit 1 r)"

fun crc32_register :: "32 word \<Rightarrow> byte list \<Rightarrow> 32 word" where
  "crc32_register r [] = r"
| "crc32_register r (b # bs) = crc32_register ((crc32_shift ^^ 8) (r XOR ucast b)) bs"

definition crc32_standard :: "byte list \<Rightarrow> 32 word" where
  "crc32_standard data = crc32_register 0xFFFFFFFF data XOR 0xFFFFFFFF"

subsection \<open>Building a datagram: \<open>BattlEyeRconClient.sendPacket\<close>\<close>

text \<open>
  \<open>buildPacket\<close> is the part of \<open>sendPacket\<close> that computes the bytes handed to the
  socket: the checksum is taken over \<open>[0xFF, ...payload]\<close>.
\<close>

definition buildPacket :: "byte list \<Rightarrow> Error + byte list" where
  "buildPacket payload =
     (let dataToChecksum = [0xFF] @ payload;
          crc32 = calculateCRC32 dataToChecksum
      in (case writeUInt32LE crc32 of
            Inl e \<Rightarrow> Inl e
          | Inr crcBytes \<Rightarrow> Inr ([0x42, 0x45] @ crcBytes @ [0xFF] @ payload)))"

subsection \<open>Validating a datagram: the head of \<open>BattlEyeRconClient.handleMessage\<close>\<close>

datatype Dropped = TooShort | WrongHeader | WrongSeparator | CrcMismatch

definition parseMessage :: "byte list \<Rightarrow> Dropped + byte list" where
  "parseMessage msg =
     (if length msg < 7 then Inl TooShort
      else if toString_ascii (take 2 msg) \<noteq> str ''BE'' then Inl WrongHeader
      else
        let receivedCRC32 = readUInt32LE msg 2;
            separator = msg ! 6
        in if separator \<noteq> 0xFF then Inl WrongSeparator
           else
             let payload = drop 7 msg;
                 dataToVerify = drop 6 msg;
                 calculatedCRC32 = calculateCRC32 dataToVerify
             in if receivedCRC32 \<noteq> calculatedCRC32 then Inl CrcMismatch else Inr payload)"

section \<open>Events and promise settlements\<close>

text \<open>
  Both clients are event emitters and hand out promises. What a client does to the outside
  is recorded, in the order it happens, in its \<open>effects\<close>: an event it emits, or the call of
  the \<open>resolve\<close> or \<open>reject\<close> callback of a pending entry (named by the id, or the sequence
  number, that the entry holds). \<open>AuthHandled success\<close> is the call of the BattlEye client's
  \<open>_authHandler\<close>. An \<open>await\<close> is a cut: the part of an \<open>async\<close> function before it is one
  function of the model, the part that runs when the awaited promise is settled is another
  (\<open>_resume\<close>). Debug logging, the timers and the events of the transport other than
  received data are not part of the model.
\<close>

datatype Event =
  StateChange ConnectionState ConnectionState
  | Ev_authenticated
  | Ev_disconnected
  | Ev_error Error
  | Ev_serverMessage jsstring

datatype ('k, 'r) Effect =
  Emit Event | Resolved 'k 'r | Rejected 'k Error | AuthHandled bool

section \<open>Source RCON client\<close>

text \<open>
  The fields \<open>size\<close>, \<open>id\<close>, \<open>type\<close> and \<open>body\<close> of \<open>RconPacket\<close> carry the prefix \<open>pkt_\<close>, the
  field \<open>id\<close> of \<open>PendingResponse\<close> is \<open>pr_id\<close>; a parameter named \<open>id\<close>, \<open>type\<close> or \<open>size\<close> is
  primed. Of the configuration only the password is kept.
\<close>

definition MIN_PACKET_SIZE :: int where "MIN_PACKET_SIZE = 10"
definition MAX_PACKET_SIZE :: int where "MAX_PACKET_SIZE = 4110"
definition AUTH_FAILURE_ID :: int where "AUTH_FAILURE_ID = - 1"

definition SERVERDATA_AUTH :: int where "SERVERDATA_AUTH = 3"
definition SERVERDATA_EXECCOMMAND :: int where "SERVERDATA_EXECCOMMAND = 2"
definition SERVERDATA_RESPONSE_VALUE :: int where "SERVERDATA_RESPONSE_VALUE = 0"

record RconPacket =
  pkt_size :: int
  pkt_id :: int
  pkt_type :: int
  pkt_body :: jsstring

record PendingResponse =
  pr_id :: int
  responses :: "jsstring list"
  terminatorId :: "int option"

record Socket =
  written :: "byte list list"

text \<open>
  \<open>pendingResponses\<close> is a JavaScript \<open>Map\<close>: it iterates in insertion order, so it is an
  association list; \<open>AList.update\<close> is \<open>Map.set\<close> (in place, or appended when the key is
  new), \<open>AList.delete\<close> is \<open>Map.delete\<close> and \<open>map_of\<close> is \<open>Map.get\<close>.
\<close>

record RconClient =
  socket :: "Socket option"
  state :: ConnectionState
  requestId :: int
  pendingResponses :: "(int \<times> PendingResponse) list"
  receiveBuffer :: "byte list"
  password :: jsstring
  effects :: "(int, jsstring list) Effect list"

definition isAuthenticated :: "RconClient \<Rightarrow> bool" where
  "isAuthenticated c = (state c = AUTHENTICATED)"

definition getNextRequestId :: "RconClient \<Rightarrow> int \<times> RconClient" where
  "getNextRequestId c =
     (let id' = requestId c;
          c1 = c\<lparr>requestId := requestId c + 1\<rparr>
      in (id', if requestId c1 > 999999 then c1\<lparr>requestId := 1\<rparr> else c1))"

definition setState :: "RconClient \<Rightarrow> ConnectionState \<Rightarrow> RconClient" where
  "setState c st =
     (let oldState = state c;
          c1 = c\<lparr>state := st\<rparr>
      in if oldState \<noteq> st then c1\<lparr>effects := effects c1 @ [Emit (StateChange st oldState)]\<rparr>
         else c1)"

subsection \<open>\<open>RconClient.sendPacket\<close>\<close>

text \<open>\<open>encodePacket\<close> is the part of \<open>sendPacket\<close> that fills the buffer.\<close>

definition encodePacket :: "int \<Rightarrow> int \<Rightarrow> jsstring \<Rightarrow> Error + byte list" where
  "encodePacket id' type' body =
     (let bodyBuffer = bufferFrom_ascii body;
          size' = 4 + 4 + int (length bodyBuffer) + 2
      in if size' > MAX_PACKET_SIZE
         then Inl (RconError INVALID_PACKET (PacketTooLarge size') None)
         else
           (case writeInt32LE size' of Inl e \<Rightarrow> Inl e | Inr sizeBytes \<Rightarrow>
             (case writeInt32LE id' of Inl e \<Rightarrow> Inl e | Inr idBytes \<Rightarrow>
               (case writeInt32LE type' of Inl e \<Rightarrow> Inl e | Inr typeBytes \<Rightarrow>
                  Inr (sizeBytes @ idBytes @ typeBytes @ bodyBuffer @ [0] @ [0])))))"

definition sendPacket :: "RconClient \<Rightarrow> int \<Rightarrow> int \<Rightarrow> jsstring \<Rightarrow> Error + RconClient" where
  "sendPacket c id' type' body =
     (case encodePacket id' type' body of
        Inl e \<Rightarrow> Inl e
      | Inr packet \<Rightarrow>
          (case socket c of
             None \<Rightarrow> Inl (RconError SOCKET_ERROR (Literal ''Socket not connected'') None)
           | Some sock \<Rightarrow> Inr (c\<lparr>socket := Some (sock\<lparr>written := written sock @ [packet]\<rparr>)\<rparr>)))"

subsection \<open>\<open>RconClient.parsePacket\<close> and \<open>RconClient.handlePacket\<close>\<close>

definition parsePacket :: "int \<Rightarrow> byte list \<Rightarrow> RconPacket" where
  "parsePacket size' buffer =
     (let id' = readInt32LE buffer 0;
          type' = readInt32LE buffer 4;
          bodyLength = size' - 10;
          body = toString_ascii (take (nat bodyLength) (drop 8 buffer))
      in \<lparr>pkt_size = size', pkt_id = id', pkt_type = type', pkt_body = body\<rparr>)"

text \<open>
  \<open>p.terminatorId && packet.id === p.terminatorId\<close>: a terminator id that is \<open>null\<close> or \<open>0\<close>
  is falsy and matches nothing.
\<close>

definition isTerminatorOf :: "int \<Rightarrow> PendingResponse \<Rightarrow> bool" where
  "isTerminatorOf packetId p =
     (case terminatorId p of None \<Rightarrow> False | Some t \<Rightarrow> t \<noteq> 0 \<and> packetId = t)"

definition handlePacket :: "RconClient \<Rightarrow> RconPacket \<Rightarrow> RconClient" where
  "handlePacket c packet =
     (if pkt_id packet = AUTH_FAILURE_ID then
        (case pendingResponses c of
           [] \<Rightarrow> c
         | (_, pending) # _ \<Rightarrow>
             c\<lparr>pendingResponses := AList.delete (pr_id pending) (pendingResponses c),
               effects := effects c @
                 [Rejected (pr_id pending)
                    (RconError AUTH_FAILED
                       (Literal ''Authentication failed - incorrect password'') None)]\<rparr>)
      else
        (case map_of (pendingResponses c) (pkt_id packet) of
          None \<Rightarrow>
            (case find (\<lambda>(commandId, p). isTerminatorOf (pkt_id packet) p) (pendingResponses c) of
               Some (commandId, p) \<Rightarrow>
                 c\<lparr>pendingResponses := AList.delete commandId (pendingResponses c),
                   effects := effects c @ [Resolved (pr_id p) (responses p)]\<rparr>
             | None \<Rightarrow> c)
        | Some pending \<Rightarrow>
            if state c = AUTHENTICATING then
              c\<lparr>pendingResponses := AList.delete (pkt_id packet) (pendingResponses c),
                effects := effects c @ [Resolved (pr_id pending) []]\<rparr>
            else if pkt_type packet = SERVERDATA_RESPONSE_VALUE then
              (if isTerminatorOf (pkt_id packet) pending then
                 c\<lparr>pendingResponses := AList.delete (pr_id pending) (pendingResponses c),
                   effects := effects c @ [Resolved (pr_id pending) (responses pending)]\<rparr>
               else
                 c\<lparr>pendingResponses :=
                     AList.update (pkt_id packet)
                       (pending\<lparr>responses := responses pending @ [pkt_body packet]\<rparr>)
                       (pendingResponses c)\<rparr>)
            else c))"

subsection \<open>\<open>RconClient.handleData\<close>\<close>

text \<open>
  The \<open>while\<close> loop over the receive buffer. \<open>parsePacket\<close> is called on exactly \<open>size\<close>
  bytes with \<open>size \<ge> 10\<close>, and neither it nor \<open>handlePacket\<close> raises, so the \<open>catch\<close> around
  them has no branch here.
\<close>

function handleData_while :: "RconClient \<Rightarrow> RconClient" where
  "handleData_while c =
     (if length (receiveBuffer c) \<ge> 4 then
        (let size' = readInt32LE (receiveBuffer c) 0 in
         if size' < MIN_PACKET_SIZE \<or> size' > MAX_PACKET_SIZE then c\<lparr>receiveBuffer := []\<rparr>
         else if int (length (receiveBuffer c)) < size' + 4 then c
         else
           handleData_while
             (handlePacket
                (c\<lparr>receiveBuffer := drop (nat (size' + 4)) (receiveBuffer c)\<rparr>)
                (parsePacket size' (take (nat size') (drop 4 (receiveBuffer c))))))
      else c)"
  by pat_completeness auto
termination
  by (relation "measure (\<lambda>c. length (receiveBuffer c))")
    (auto simp: handlePacket_def MIN_PACKET_SIZE_def Let_def
          split: list.splits option.splits prod.splits)

definition handleData :: "RconClient \<Rightarrow> byte list \<Rightarrow> RconClient" where
  "handleData c data = handleData_while (c\<lparr>receiveBuffer := receiveBuffer c @ data\<rparr>)"

text \<open>
  The same loop on the buffer alone: \<open>frames buf\<close> is the list of packets the loop hands to
  \<open>handlePacket\<close>, in order, and the buffer it leaves; \<open>desync buf\<close> tells whether the loop
  ends in the branch that finds a size outside \<open>10..4110\<close> and empties the buffer.
\<close>

function frames :: "byte list \<Rightarrow> RconPacket list \<times> byte list" where
  "frames buf =
     (if length buf \<ge> 4 then
        (let size' = readInt32LE buf 0 in
         if size' < MIN_PACKET_SIZE \<or> size' > MAX_PACKET_SIZE then ([], [])
         else if int (length buf) < size' + 4 then ([], buf)
         else
           (let r = frames (drop (nat (size' + 4)) buf)
            in (parsePacket size' (take (nat size') (drop 4 buf)) # fst r, snd r)))
      else ([], buf))"
  by pat_completeness auto
termination
  by (relation "measure length") (auto simp: MIN_PACKET_SIZE_def)

function desync :: "byte list \<Rightarrow> bool" where
  "desync buf =
     (if length buf \<ge> 4 then
        (let size' = readInt32LE buf 0 in
         if size' < MIN_PACKET_SIZE \<or> size' > MAX_PACKET_SIZE then True
         else if int (length buf) < size' + 4 then False
         else desync (drop (nat (size' + 4)) buf))
      else False)"
  by pat_completeness auto
termination
  by (relation "measure length") (auto simp: MIN_PACKET_SIZE_def)

text \<open>
  \<open>feed buf chunks\<close>: one \<open>handleData\<close> call per chunk, starting from the receive buffer
  \<open>buf\<close>; the packets of all the calls, in order, and the buffer left at the end.
\<close>

fun feed :: "byte list \<Rightarrow> byte list list \<Rightarrow> RconPacket list \<times> byte list" where
  "feed buf [] = ([], buf)"
| "feed buf (data # chunks) =
     (let r = frames (buf @ data);
          r' = feed (snd r) chunks
      in (fst r @ fst r', snd r'))"

subsection \<open>\<open>RconClient.execute\<close>\<close>

definition waitForResponse :: "RconClient \<Rightarrow> int \<Rightarrow> int \<Rightarrow> RconClient" where
  "waitForResponse c commandId terminatorId' =
     c\<lparr>pendingResponses :=
         AList.update commandId
           \<lparr>pr_id = commandId, responses = [], terminatorId = Some terminatorId'\<rparr>
           (pendingResponses c)\<rparr>"

text \<open>
  \<open>execute\<close> up to its \<open>await\<close>: either the promise is rejected at once (\<open>Inl\<close>), or both
  packets are written and the entry \<open>(commandId, terminatorId)\<close> is registered (\<open>Inr\<close>).
  \<open>execute_resume\<close> is the rest of \<open>execute\<close>, run when the entry is settled.
\<close>

definition execute :: "RconClient \<Rightarrow> jsstring \<Rightarrow> (Error + int \<times> int) \<times> RconClient" where
  "execute c command =
     (if \<not> isAuthenticated c then
        (Inl (RconError NOT_AUTHENTICATED
                (Literal ''Not authenticated. Call connect() first.'') None), c)
      else
        let (commandId, c1) = getNextRequestId c;
            (terminatorId', c2) = getNextRequestId c1
        in (case sendPacket c2 commandId SERVERDATA_EXECCOMMAND command of
              Inl e \<Rightarrow> (Inl (RconError COMMAND_FAILED (FailedToExecute command) (Some e)), c2)
            | Inr c3 \<Rightarrow>
                (case sendPacket c3 terminatorId' SERVERDATA_RESPONSE_VALUE [] of
                   Inl e \<Rightarrow>
                     (Inl (RconError COMMAND_FAILED (FailedToExecute command) (Some e)), c3)
                 | Inr c4 \<Rightarrow> (Inr (commandId, terminatorId'),
                              waitForResponse c4 commandId terminatorId'))))"

definition execute_resume :: "jsstring \<Rightarrow> Error + jsstring list \<Rightarrow> Error + jsstring" where
  "execute_resume command settled =
     (case settled of
        Inr responses' \<Rightarrow> Inr (concat responses')
      | Inl e \<Rightarrow> Inl (RconError COMMAND_FAILED (FailedToExecute command) (Some e)))"

subsection \<open>\<open>RconClient.authenticate\<close>, \<open>connect\<close>, \<open>cleanup\<close>, \<open>disconnect\<close>\<close>

text \<open>
  \<open>authenticate\<close> up to the point where its promise waits: the state change, the auth id,
  the pending entry and the auth packet. An error raised by \<open>sendPacket\<close> inside the promise
  executor rejects the promise.
\<close>

definition authenticate :: "RconClient \<Rightarrow> int \<times> RconClient" where
  "authenticate c =
     (let c1 = setState c AUTHENTICATING;
          (authId, c2) = getNextRequestId c1;
          c3 = c2\<lparr>pendingResponses :=
                    AList.update authId
                      \<lparr>pr_id = authId, responses = [], terminatorId = None\<rparr>
                      (pendingResponses c2)\<rparr>
      in (case sendPacket c3 authId SERVERDATA_AUTH (password c3) of
            Inl e \<Rightarrow> (authId, c3\<lparr>effects := effects c3 @ [Rejected authId e]\<rparr>)
          | Inr c4 \<Rightarrow> (authId, c4)))"

definition cleanup :: "RconClient \<Rightarrow> RconClient" where
  "cleanup c =
     (let c1 = (case socket c of None \<Rightarrow> c | Some sock \<Rightarrow> c\<lparr>socket := None\<rparr>);
          c2 = c1\<lparr>effects := effects c1 @
                  map (\<lambda>(key, pending).
                         Rejected (pr_id pending)
                           (RconError CONNECTION_FAILED (Literal ''Connection closed'') None))
                      (pendingResponses c1)\<rparr>
      in c2\<lparr>pendingResponses := [], receiveBuffer := []\<rparr>)"

text \<open>
  The rest of \<open>connect\<close> after \<open>await this.authenticate()\<close>: on success the state becomes
  \<open>AUTHENTICATED\<close> and \<open>authenticated\<close> is emitted; on rejection the \<open>catch\<close> block sets
  \<open>ERROR\<close>, cleans up and rethrows.
\<close>

definition connect_resume :: "RconClient \<Rightarrow> Error + unit \<Rightarrow> (Error + unit) \<times> RconClient" where
  "connect_resume c settled =
     (case settled of
        Inr _ \<Rightarrow>
          (let c1 = setState c AUTHENTICATED;
               c2 = c1\<lparr>effects := effects c1 @ [Emit Ev_authenticated]\<rparr>
           in (Inr (), c2))
      | Inl error \<Rightarrow>
          (let c1 = setState c ERROR;
               c2 = cleanup c1
           in (Inl error, c2)))"

text \<open>
  The promise that \<open>authenticate\<close> returns is settled by the first call of the \<open>resolve\<close> or
  the \<open>reject\<close> of the auth entry; later calls do nothing. \<open>settlement authId es\<close> is that
  first call among the effects \<open>es\<close>, if there is one.
\<close>

fun settlement :: "int \<Rightarrow> (int, jsstring list) Effect list \<Rightarrow> (Error + unit) option" where
  "settlement authId [] = None"
| "settlement authId (Resolved k r # es) =
     (if k = authId then Some (Inr ()) else settlement authId es)"
| "settlement authId (Rejected k e # es) =
     (if k = authId then Some (Inl e) else settlement authId es)"
| "settlement authId (Emit ev # es) = settlement authId es"
| "settlement authId (AuthHandled b # es) = settlement authId es"

text \<open>
  \<open>connect\<close> between \<open>await this.authenticate()\<close> and its end, for one chunk of received
  data. The \<open>data\<close> handler of the socket runs to the end of the chunk. If it has settled the
  promise of \<open>authenticate\<close>, the continuation of \<open>connect\<close> runs next, as a microtask, with
  that outcome, and \<open>connect\<close> is over (\<open>Some\<close>); otherwise \<open>connect\<close> keeps waiting (\<open>None\<close>).
  \<open>c\<close> is the client that \<open>authenticate\<close> has left, \<open>authId\<close> the id it has taken.
\<close>

definition connect_await ::
  "RconClient \<Rightarrow> int \<Rightarrow> byte list \<Rightarrow> (Error + unit) option \<times> RconClient" where
  "connect_await c authId data =
     (let c1 = handleData c data
      in (case settlement authId (drop (length (effects c)) (effects c1)) of
            None \<Rightarrow> (None, c1)
          | Some outcome \<Rightarrow>
              (let (result, c2) = connect_resume c1 outcome in (Some result, c2))))"

definition disconnect :: "RconClient \<Rightarrow> (Error + unit) \<times> RconClient" where
  "disconnect c =
     (let c1 = cleanup c;
          c2 = setState c1 DISCONNECTED;
          c3 = c2\<lparr>effects := effects c2 @ [Emit Ev_disconnected]\<rparr>
      in (Inr (), c3))"

section \<open>BattlEye RCON client\<close>

text \<open>
  Names that the Source client has taken carry the prefix \<open>be_\<close>.

  \<open>Buffer.from(s, 'utf8')\<close>: the UTF-8 bytes of the code points of \<open>s\<close>; a surrogate that
  has no partner is encoded as U+FFFD.
\<close>

definition utf8_unit :: "16 word \<Rightarrow> byte list" where
  "utf8_unit c =
     (if c < 0x80 then [ucast c]
      else if c < 0x800 then [0xC0 OR ucast (drop_bit 6 c), 0x80 OR ucast (c AND 0x3F)]
      else if 0xD800 \<le> c \<and> c < 0xE000 then [0xEF, 0xBF, 0xBD]
      else [0xE0 OR ucast (drop_bit 12 c), 0x80 OR ucast (drop_bit 6 c AND 0x3F),
            0x80 OR ucast (c AND 0x3F)])"

definition utf8_pair :: "16 word \<Rightarrow> 16 word \<Rightarrow> byte list" where
  "utf8_pair hi lo =
     (let cp = 0x10000 + push_bit 10 (ucast (hi AND 0x3FF)) + ucast (lo AND 0x3FF) :: 32 word
      in [0xF0 OR ucast (drop_bit 18 cp), 0x80 OR ucast (drop_bit 12 cp AND 0x3F),
          0x80 OR ucast (drop_bit 6 cp AND 0x3F), 0x80 OR ucast (cp AND 0x3F)])"

fun bufferFrom_utf8 :: "jsstring \<Rightarrow> byte list" where
  "bufferFrom_utf8 [] = []"
| "bufferFrom_utf8 [c] = utf8_unit c"
| "bufferFrom_utf8 (c # d # cs) =
     (if 0xD800 \<le> c \<and> c < 0xDC00 \<and> 0xDC00 \<le> d \<and> d < 0xE000
      then utf8_pair c d @ bufferFrom_utf8 cs
      else utf8_unit c @ bufferFrom_utf8 (d # cs))"

record DgramSocket =
  sent :: "byte list list"

record PendingCommand =
  pc_sequenceNumber :: nat

text \<open>
  \<open>authHandler\<close> tells whether the property \<open>_authHandler\<close> is set, \<open>heartbeatInterval\<close>
  whether the interval timer is. The class extends \<open>EventEmitter\<close>: \<open>errorListeners\<close> is the
  number of listeners that its users have registered for the \<open>error\<close> event, which is what
  \<open>emit('error', ...)\<close> depends on. The class registers none itself.
\<close>

record BattlEyeRconClient =
  be_socket :: "DgramSocket option"
  be_state :: ConnectionState
  sequenceNumber :: nat
  pendingCommands :: "(nat \<times> PendingCommand) list"
  heartbeatInterval :: bool
  authHandler :: bool
  errorListeners :: nat
  be_effects :: "(nat, jsstring) Effect list"

definition be_isAuthenticated :: "BattlEyeRconClient \<Rightarrow> bool" where
  "be_isAuthenticated c = (be_state c = AUTHENTICATED)"

definition getNextSequenceNumber :: "BattlEyeRconClient \<Rightarrow> nat \<times> BattlEyeRconClient" where
  "getNextSequenceNumber c =
     (let seq = sequenceNumber c
      in (seq, c\<lparr>sequenceNumber := (sequenceNumber c + 1) mod 256\<rparr>))"

definition be_setState :: "BattlEyeRconClient \<Rightarrow> ConnectionState \<Rightarrow> BattlEyeRconClient" where
  "be_setState c st =
     (let oldState = be_state c;
          c1 = c\<lparr>be_state := st\<rparr>
      in if oldState \<noteq> st
         then c1\<lparr>be_effects := be_effects c1 @ [Emit (StateChange st oldState)]\<rparr>
         else c1)"

subsection \<open>Sending\<close>

definition be_sendPacket :: "BattlEyeRconClient \<Rightarrow> byte list \<Rightarrow> Error + BattlEyeRconClient" where
  "be_sendPacket c payload =
     (case be_socket c of
        None \<Rightarrow> Inl (RconError SOCKET_ERROR (Literal ''Socket not connected'') None)
      | Some sock \<Rightarrow>
          (case buildPacket payload of
             Inl e \<Rightarrow> Inl e
           | Inr packet \<Rightarrow> Inr (c\<lparr>be_socket := Some (sock\<lparr>sent := sent sock @ [packet]\<rparr>)\<rparr>)))"

text \<open>
  \<open>on('error', listener)\<close> of the inherited \<open>EventEmitter\<close>.
\<close>

definition on_error :: "BattlEyeRconClient \<Rightarrow> BattlEyeRconClient" where
  "on_error c = c\<lparr>errorListeners := errorListeners c + 1\<rparr>"

text \<open>
  The callback that \<open>sendPacket\<close> gives to \<open>socket.send\<close>, when the transport reports an
  error: it calls \<open>this.emit('error', new RconError(...))\<close>. With a listener registered the
  event is delivered. With none, \<open>emit\<close> throws its argument: the \<open>RconError\<close> leaves the
  callback as an exception (\<open>Inl\<close>). The callback runs from the event loop, after
  \<open>sendPacket\<close> and the \<open>try\<close> block of its caller have returned, so nothing of the client
  catches it.
\<close>

definition be_sendPacket_failed :: "BattlEyeRconClient \<Rightarrow> string \<Rightarrow> Error + BattlEyeRconClient" where
  "be_sendPacket_failed c message =
     (let error = RconError SOCKET_ERROR (FailedToSend message) (Some (SystemError message))
      in if errorListeners c = 0 then Inl error
         else Inr (c\<lparr>be_effects := be_effects c @ [Emit (Ev_error error)]\<rparr>))"

definition sendCommandPacket ::
  "BattlEyeRconClient \<Rightarrow> nat \<Rightarrow> jsstring \<Rightarrow> Error + BattlEyeRconClient" where
  "sendCommandPacket c sequenceNumber' command =
     be_sendPacket c ([0x01] @ [of_nat sequenceNumber'] @ bufferFrom_utf8 command)"

definition sendAcknowledgment :: "BattlEyeRconClient \<Rightarrow> nat \<Rightarrow> Error + BattlEyeRconClient" where
  "sendAcknowledgment c sequenceNumber' = be_sendPacket c ([0x02] @ [of_nat sequenceNumber'])"

subsection \<open>\<open>BattlEyeRconClient.handleMessage\<close>\<close>

text \<open>
  \<open>toString('utf8')\<close> is a parameter \<open>decode\<close> of the functions that turn received bytes
  into text.
\<close>

definition handleLoginResponse :: "BattlEyeRconClient \<Rightarrow> byte list \<Rightarrow> BattlEyeRconClient" where
  "handleLoginResponse c payload =
     (if length payload < 2 then c
      else
        let success = (payload ! 1 = 0x01)
        in if authHandler c
           then c\<lparr>authHandler := False, be_effects := be_effects c @ [AuthHandled success]\<rparr>
           else c)"

definition handleCommandResponse ::
  "(byte list \<Rightarrow> jsstring) \<Rightarrow> BattlEyeRconClient \<Rightarrow> byte list \<Rightarrow> BattlEyeRconClient" where
  "handleCommandResponse decode c payload =
     (if length payload < 2 then c
      else
        let sequenceNumber' = unat (payload ! 1);
            response = decode (drop 2 payload)
        in (case map_of (pendingCommands c) sequenceNumber' of
              Some pending \<Rightarrow>
                c\<lparr>pendingCommands := AList.delete sequenceNumber' (pendingCommands c),
                  be_effects := be_effects c @ [Resolved sequenceNumber' response]\<rparr>
            | None \<Rightarrow> c))"

definition handleServerMessage ::
  "(byte list \<Rightarrow> jsstring) \<Rightarrow> BattlEyeRconClient \<Rightarrow> byte list
     \<Rightarrow> Error + BattlEyeRconClient" where
  "handleServerMessage decode c payload =
     (if length payload < 2 then Inr c
      else
        let sequenceNumber' = unat (payload ! 1);
            message = decode (drop 2 payload)
        in (case sendAcknowledgment c sequenceNumber' of
              Inl e \<Rightarrow> Inl e
            | Inr c1 \<Rightarrow> Inr (c1\<lparr>be_effects := be_effects c1 @ [Emit (Ev_serverMessage message)]\<rparr>)))"

text \<open>
  A datagram that fails a header check is dropped. \<open>payload.readUInt8(0)\<close> raises on the
  empty payload of a seven-byte datagram.
\<close>

definition handleMessage ::
  "(byte list \<Rightarrow> jsstring) \<Rightarrow> BattlEyeRconClient \<Rightarrow> byte list
     \<Rightarrow> Error + BattlEyeRconClient" where
  "handleMessage decode c msg =
     (case parseMessage msg of
        Inl dropped \<Rightarrow> Inr c
      | Inr payload \<Rightarrow>
          (case payload of
             [] \<Rightarrow> Inl RangeError
           | packetType # _ \<Rightarrow>
               if packetType = 0x00 then Inr (handleLoginResponse c payload)
               else if packetType = 0x01 then Inr (handleCommandResponse decode c payload)
               else if packetType = 0x02 then handleServerMessage decode c payload
               else Inr c))"

subsection \<open>\<open>BattlEyeRconClient.execute\<close> and the heartbeat\<close>

definition be_waitForResponse :: "BattlEyeRconClient \<Rightarrow> nat \<Rightarrow> BattlEyeRconClient" where
  "be_waitForResponse c sequenceNumber' =
     c\<lparr>pendingCommands :=
         AList.update sequenceNumber' \<lparr>pc_sequenceNumber = sequenceNumber'\<rparr>
           (pendingCommands c)\<rparr>"

definition be_execute ::
  "BattlEyeRconClient \<Rightarrow> jsstring \<Rightarrow> (Error + nat) \<times> BattlEyeRconClient" where
  "be_execute c command =
     (if \<not> be_isAuthenticated c then
        (Inl (RconError NOT_AUTHENTICATED
                (Literal ''Not authenticated. Call connect() first.'') None), c)
      else
        let (seqNum, c1) = getNextSequenceNumber c
        in (case sendCommandPacket c1 seqNum command of
              Inl e \<Rightarrow> (Inl (RconError COMMAND_FAILED (FailedToExecute command) (Some e)), c1)
            | Inr c2 \<Rightarrow> (Inr seqNum, be_waitForResponse c2 seqNum)))"

text \<open>
  The callback of the interval timer that \<open>startHeartbeat\<close> sets: one heartbeat tick. An
  error raised by \<open>sendPacket\<close> is caught and only logged.
\<close>

definition heartbeat :: "BattlEyeRconClient \<Rightarrow> BattlEyeRconClient" where
  "heartbeat c =
     (if be_isAuthenticated c then
        let (seqNum, c1) = getNextSequenceNumber c;
            payload = [0x01] @ [of_nat seqNum] @ bufferFrom_utf8 []
        in (case be_sendPacket c1 payload of
              Inl e \<Rightarrow> c1
            | Inr c2 \<Rightarrow> c2)
      else c)"

definition stopHeartbeat :: "BattlEyeRconClient \<Rightarrow> BattlEyeRconClient" where
  "stopHeartbeat c = (if heartbeatInterval c then c\<lparr>heartbeatInterval := False\<rparr> else c)"

definition be_cleanup :: "BattlEyeRconClient \<Rightarrow> BattlEyeRconClient" where
  "be_cleanup c =
     (let c1 = stopHeartbeat c;
          c2 = (case be_socket c1 of None \<Rightarrow> c1 | Some sock \<Rightarrow> c1\<lparr>be_socket := None\<rparr>);
          c3 = c2\<lparr>be_effects := be_effects c2 @
                  map (\<lambda>(key, pending).
                         Rejected (pc_sequenceNumber pending)
                           (RconError CONNECTION_FAILED (Literal ''Connection closed'') None))
                      (pendingCommands c2)\<rparr>
      in c3\<lparr>pendingCommands := []\<rparr>)"

definition be_disconnect :: "BattlEyeRconClient \<Rightarrow> (Error + unit) \<times> BattlEyeRconClient" where
  "be_disconnect c =
     (let c1 = be_cleanup c;
          c2 = be_setState c1 DISCONNECTED;
          c3 = c2\<lparr>be_effects := be_effects c2 @ [Emit Ev_disconnected]\<rparr>
      in (Inr (), c3))"

subsection \<open>An execute in flight\<close>

text \<open>
  \<open>in_flight c commandId terminatorId entry\<close> describes a client that waits for the response
  of an \<open>execute\<close>: it is \<open>AUTHENTICATED\<close>, its table is a \<open>Map\<close> (no key twice) in which every
  entry is stored under its own id, \<open>entry\<close> is the one stored under \<open>commandId\<close>, and the
  terminator id is a fresh request id: not \<open>0\<close>, not \<open>-1\<close>, not the command id, not the key of
  a pending entry and not the terminator of another one.
\<close>

definition in_flight :: "RconClient \<Rightarrow> int \<Rightarrow> int \<Rightarrow> PendingResponse \<Rightarrow> bool" where
  "in_flight c commandId terminatorId' entry \<longleftrightarrow>
     state c = AUTHENTICATED
     \<and> distinct (map fst (pendingResponses c))
     \<and> map_of (pendingResponses c) commandId = Some entry
     \<and> terminatorId entry = Some terminatorId'
     \<and> commandId \<noteq> AUTH_FAILURE_ID \<and> terminatorId' \<noteq> AUTH_FAILURE_ID
     \<and> terminatorId' \<noteq> 0 \<and> terminatorId' \<noteq> commandId
     \<and> map_of (pendingResponses c) terminatorId' = None
     \<and> (\<forall>(key, p) \<in> set (pendingResponses c).
          pr_id p = key \<and> (terminatorId p = Some terminatorId' \<longrightarrow> key = commandId))"

section \<open>Initial states\<close>

text \<open>The field initialisers and constructors of the two classes.\<close>

definition new_RconClient :: "jsstring \<Rightarrow> RconClient" where
  "new_RconClient password' =
     \<lparr>socket = None, state = DISCONNECTED, requestId = 1, pendingResponses = [],
      receiveBuffer = [], password = password', effects = []\<rparr>"

definition new_BattlEyeRconClient :: BattlEyeRconClient where
  "new_BattlEyeRconClient =
     \<lparr>be_socket = None, be_state = DISCONNECTED, sequenceNumber = 0, pendingCommands = [],
      heartbeatInterval = False, authHandler = False, errorListeners = 0, be_effects = []\<rparr>"

declare frames.simps [simp del] desync.simps [simp del] handleData_while.simps [simp del]

section \<open>The checksum refines the standard CRC32\<close>

text \<open>
  The JavaScript accumulator and the 32-bit register hold the same bits after every round:
  \<open>word_of_int\<close> of the one is the other.
\<close>

lemma sint_eq_0_iff: "sint (x :: 32 word) = 0 \<longleftrightarrow> x = 0"
proof
  assume "sint x = 0"
  then have "(word_of_int (sint x) :: 32 word) = word_of_int 0" by (simp only:)
  then show "x = 0" by simp
qed simp

lemma sint_and_1: "sint ((w :: 32 word) AND 1) \<noteq> 0 \<longleftrightarrow> bit w 0"
  by (simp add: sint_eq_0_iff and_one_eq bit_0 even_iff_mod_2_eq_zero)

lemma crc_round_word: "word_of_int (crc_round c) = crc32_shift (word_of_int c)"
  unfolding crc_round_def crc32_shift_def js_and_def js_xor_def js_ushr_def
  using sint_and_1[of "word_of_int c"] by simp

lemma crc_rounds_word: "word_of_int ((crc_round ^^ n) c) = (crc32_shift ^^ n) (word_of_int c)"
  by (induction n) (simp_all add: crc_round_word)

lemma crc_byte_word:
  "word_of_int (crc_byte c b) = (crc32_shift ^^ 8) (word_of_int c XOR ucast b)"
  unfolding crc_byte_def by (simp only: crc_rounds_word) (simp add: js_xor_def del: funpow.simps)

lemma crc_fold_word: "word_of_int (foldl crc_byte c bs) = crc32_register (word_of_int c) bs"
  by (induction bs arbitrary: c) (simp_all add: crc_byte_word del: funpow.simps)

text \<open>
  The result of \<open>calculateCRC32\<close> is the standard CRC32 read as an unsigned number.
\<close>

lemma calculateCRC32_word: "calculateCRC32 bs = uint (crc32_standard bs)"
  unfolding calculateCRC32_def crc32_standard_def js_ushr_def js_xor_def
  using crc_fold_word[of 4294967295 bs] by simp

lemma calculateCRC32_range: "0 \<le> calculateCRC32 bs \<and> calculateCRC32 bs \<le> 4294967295"
proof -
  have "uint (crc32_standard bs) < 2 ^ 32"
    using uint_bounded[of "crc32_standard bs"] by simp
  then show ?thesis by (simp add: calculateCRC32_word)
qed

lemma crc32_check_rounds:
  "(crc32_shift ^^ 8) (4294967295 XOR ucast (0x31 :: byte)) = 2082672712"
  "(crc32_shift ^^ 8) (2082672712 XOR ucast (0x32 :: byte)) = 2964110130"
  "(crc32_shift ^^ 8) (2964110130 XOR ucast (0x33 :: byte)) = 2008521773"
  "(crc32_shift ^^ 8) (2008521773 XOR ucast (0x34 :: byte)) = 1679564636"
  "(crc32_shift ^^ 8) (1679564636 XOR ucast (0x35 :: byte)) = 873121251"
  "(crc32_shift ^^ 8) (873121251 XOR ucast (0x36 :: byte)) = 4136447134"
  "(crc32_shift ^^ 8) (4136447134 XOR ucast (0x37 :: byte)) = 2952566368"
  "(crc32_shift ^^ 8) (2952566368 XOR ucast (0x38 :: byte)) = 1696539984"
  "(crc32_shift ^^ 8) (1696539984 XOR ucast (0x39 :: byte)) = 873187033"
  by code_simp+

text \<open>
  The check value of CRC-32: the register algorithm above gives \<open>0xCBF43926\<close> on the ASCII
  digits \<open>123456789\<close>, and \<open>0xFF000000\<close> on the single byte \<open>0xFF\<close>.
\<close>

lemma crc32_standard_check_value:
  "crc32_standard [0x31, 0x32, 0x33, 0x34, 0x35, 0x36, 0x37, 0x38, 0x39] = 0xCBF43926"
  unfolding crc32_standard_def
  by (simp only: crc32_register.simps crc32_check_rounds) simp

lemma crc32_standard_check_FF: "crc32_standard [0xFF] = 0xFF000000"
  by code_simp

lemma calculateCRC32_FF: "calculateCRC32 [0xFF] = 0xFF000000"
  by (simp add: calculateCRC32_word crc32_standard_check_FF)

section \<open>Little-endian fields\<close>

text \<open>
  Reading back the four bytes of a value: unsigned values below \<open>2^32\<close> and signed 32-bit
  values are read as they were written.
\<close>

lemma le_sum:
  "(v::int) mod 256 + 256 * (v div 256 mod 256) + 65536 * (v div 65536 mod 256)
     + 16777216 * (v div 16777216) = v"
proof -
  have a: "v div 65536 = v div 256 div 256" by (simp add: zdiv_zmult2_eq)
  have b: "v div 16777216 = v div 256 div 256 div 256" by (simp add: zdiv_zmult2_eq)
  show ?thesis unfolding a b
    using div_mult_mod_eq[of v 256] div_mult_mod_eq[of "v div 256" 256]
      div_mult_mod_eq[of "v div 256 div 256" 256]
    by linarith
qed

lemma readUInt32LE_le_bytes0:
  "0 \<le> v \<Longrightarrow> v < 4294967296 \<Longrightarrow> readUInt32LE (pre @ le_bytes v @ post) (length pre) = v"
  unfolding readUInt32LE_def le_bytes_def
  by (simp add: nth_append uint_word_of_int le_sum)

lemma readUInt32LE_le_bytes:
  assumes "0 \<le> v" "v \<le> 4294967295" "length pre = n"
  shows "readUInt32LE (pre @ le_bytes v @ post) n = v"
proof -
  have "v < 4294967296" using assms(2) by simp
  from readUInt32LE_le_bytes0[OF assms(1) this, of pre post] assms(3) show ?thesis by simp
qed

lemma length_le_bytes: "length (le_bytes v) = 4"
  by (simp add: le_bytes_def)

lemma le_digits_bound:
  fixes a b c d :: int
  assumes "0 \<le> a" "a < 256" "0 \<le> b" "b < 256" "0 \<le> c" "c < 256" "0 \<le> d" "d < 256"
  shows "0 \<le> a + 256 * b + 65536 * c + 16777216 * d"
    and "a + 256 * b + 65536 * c + 16777216 * d < 4294967296"
  using assms by linarith+

lemma le_digits_carry:
  fixes a b c d q D v :: int
  assumes "a + 256 * b + 65536 * c + 16777216 * D = v" "D = 256 * q + d"
  shows "v = (a + 256 * b + 65536 * c + 16777216 * d) + 4294967296 * q"
  using assms by (simp add: algebra_simps)

lemma le_sum_mod:
  "(v::int) mod 256 + 256 * (v div 256 mod 256) + 65536 * (v div 65536 mod 256)
     + 16777216 * (v div 16777216 mod 256) = v mod 4294967296"
proof -
  let ?S = "v mod 256 + 256 * (v div 256 mod 256) + 65536 * (v div 65536 mod 256)
     + 16777216 * (v div 16777216 mod 256)"
  have q': "v div 16777216 div 256 = v div 4294967296" by (simp add: zdiv_zmult2_eq)
  have q: "v div 16777216 = 256 * (v div 4294967296) + v div 16777216 mod 256"
    unfolding q'[symmetric] by (rule mult_div_mod_eq[symmetric])
  have v: "v = ?S + 4294967296 * (v div 4294967296)"
    by (rule le_digits_carry[OF le_sum q])
  have lo: "0 \<le> ?S"
    by (rule le_digits_bound(1)) (simp_all only: pos_mod_sign pos_mod_bound zero_less_numeral)
  have hi: "?S < 4294967296"
    by (rule le_digits_bound(2)) (simp_all only: pos_mod_sign pos_mod_bound zero_less_numeral)
  have "v mod 4294967296 = (?S + 4294967296 * (v div 4294967296)) mod 4294967296"
    using v by (rule arg_cong)
  also have "\<dots> = ?S mod 4294967296" by (simp only: mod_mult_self2)
  also have "\<dots> = ?S" using lo hi by (rule mod_pos_pos_trivial)
  finally show ?thesis by (rule sym)
qed

lemma readUInt32LE_le_bytes_mod:
  "readUInt32LE (pre @ le_bytes v @ post) (length pre) = v mod 4294967296"
  unfolding readUInt32LE_def le_bytes_def
  by (simp add: nth_append uint_word_of_int le_sum_mod)

lemma readInt32LE_le_bytes:
  assumes "- 2147483648 \<le> v" "v \<le> 2147483647" "length pre = n"
  shows "readInt32LE (pre @ le_bytes v @ post) n = v"
proof -
  have m: "v mod 4294967296 = (if v < 0 then v + 4294967296 else v)"
  proof (cases "v < 0")
    case True
    then have "0 \<le> v + 4294967296" "v + 4294967296 < 4294967296" using assms by simp_all
    then have "(v + 4294967296) mod 4294967296 = v + 4294967296"
      by (rule mod_pos_pos_trivial)
    moreover have "(v + 4294967296) mod 4294967296 = v mod 4294967296"
      by (simp only: mod_add_self2)
    ultimately have "v mod 4294967296 = v + 4294967296" by (simp only:)
    then show ?thesis using True by (simp only: if_True)
  next
    case False
    then have "0 \<le> v" "v < 4294967296" using assms by simp_all
    then have "v mod 4294967296 = v" by (rule mod_pos_pos_trivial)
    then show ?thesis using False by (simp only: if_False)
  qed
  have "readUInt32LE (pre @ le_bytes v @ post) n = v mod 4294967296"
    using readUInt32LE_le_bytes_mod[of pre v post] assms(3) by simp
  then show ?thesis
    unfolding readInt32LE_def Let_def m using assms(1,2) by simp
qed

section \<open>BattlEye datagrams\<close>

lemma buildPacket_eq:
  "buildPacket payload =
     Inr ([0x42, 0x45] @ le_bytes (calculateCRC32 (0xFF # payload)) @ [0xFF] @ payload)"
  using calculateCRC32_range[of "0xFF # payload"]
  by (simp add: buildPacket_def writeUInt32LE_def)

lemma parseMessage_datagram:
  "parseMessage ([0x42, 0x45] @ le_bytes (calculateCRC32 (0xFF # payload)) @ [0xFF] @ payload)
     = Inr payload"
proof -
  let ?crc = "calculateCRC32 (0xFF # payload)"
  let ?msg = "[0x42, 0x45] @ le_bytes ?crc @ [0xFF] @ payload"
  have len: "length ?msg = 7 + length payload" by (simp add: length_le_bytes)
  have hdr: "toString_ascii (take 2 ?msg) = str ''BE''"
    by (simp add: toString_ascii_def str_def)
  have rd: "readUInt32LE ?msg 2 = ?crc"
    by (rule readUInt32LE_le_bytes) (simp_all add: calculateCRC32_range)
  have sep: "?msg ! 6 = 0xFF" by (simp add: nth_append length_le_bytes)
  have d6: "drop 6 ?msg = 0xFF # payload" by (simp add: length_le_bytes)
  have d7: "drop 7 ?msg = payload" by (simp add: length_le_bytes)
  show ?thesis
    unfolding parseMessage_def Let_def
    by (simp only: len hdr rd sep d6 d7) simp
qed

text \<open>
  C2. For every byte sequence \<open>D\<close> the checksum the client computes is the standard CRC32 of
  \<open>D\<close> (polynomial \<open>0xEDB88320\<close>, bitwise, initial \<open>0xFFFFFFFF\<close>, final XOR \<open>0xFFFFFFFF\<close>), an
  unsigned 32-bit value; and every datagram \<open>sendPacket\<close> hands to the socket carries, in
  its little-endian checksum field, the CRC32 of the separator byte \<open>0xFF\<close> followed by the
  payload.
\<close>

theorem crc32_is_standard:
  "calculateCRC32 D = uint (crc32_standard D)
   \<and> 0 \<le> calculateCRC32 D \<and> calculateCRC32 D < 2 ^ 32
   \<and> be_sendPacket c payload =
       (case be_socket c of
          None \<Rightarrow> Inl (RconError SOCKET_ERROR (Literal ''Socket not connected'') None)
        | Some sock \<Rightarrow>
            Inr (c\<lparr>be_socket := Some (sock\<lparr>sent := sent sock @
                   [[0x42, 0x45] @ le_bytes (uint (crc32_standard ([0xFF] @ payload)))
                      @ [0xFF] @ payload]\<rparr>)\<rparr>))
   \<and> readUInt32LE ([0x42, 0x45] @ le_bytes (uint (crc32_standard ([0xFF] @ payload)))
                      @ [0xFF] @ payload) 2
       = uint (crc32_standard ([0xFF] @ payload))"
proof -
  have a: "calculateCRC32 D = uint (crc32_standard D)" by (rule calculateCRC32_word)
  have b: "0 \<le> calculateCRC32 D \<and> calculateCRC32 D < 2 ^ 32"
    using calculateCRC32_range[of D] by simp
  have c: "be_sendPacket c payload =
       (case be_socket c of
          None \<Rightarrow> Inl (RconError SOCKET_ERROR (Literal ''Socket not connected'') None)
        | Some sock \<Rightarrow>
            Inr (c\<lparr>be_socket := Some (sock\<lparr>sent := sent sock @
                   [[0x42, 0x45] @ le_bytes (uint (crc32_standard ([0xFF] @ payload)))
                      @ [0xFF] @ payload]\<rparr>)\<rparr>))"
    by (simp add: be_sendPacket_def buildPacket_eq calculateCRC32_word split: option.split)
  have d: "readUInt32LE ([0x42, 0x45] @ le_bytes (uint (crc32_standard ([0xFF] @ payload)))
                      @ [0xFF] @ payload) 2
       = uint (crc32_standard ([0xFF] @ payload))"
    using calculateCRC32_range[of "[0xFF] @ payload"]
    by (intro readUInt32LE_le_bytes) (simp_all add: calculateCRC32_word)
  from a b c d show ?thesis by (intro conjI) simp_all
qed

text \<open>
  C7. For every payload \<open>Q\<close>, the datagram built from \<open>Q\<close> (\<open>'B'\<close>, \<open>'E'\<close>, little-endian CRC32,
  \<open>0xFF\<close>, then \<open>Q\<close>; \<open>7 + len Q\<close> bytes) passes the length, prefix, separator and checksum
  checks of \<open>handleMessage\<close>, which yield exactly \<open>Q\<close>.
\<close>

theorem build_parse_roundtrip:
  "(case buildPacket Q of
      Inl e \<Rightarrow> False
    | Inr packet \<Rightarrow>
        length packet = 7 + length Q \<and> take 2 packet = [0x42, 0x45]
        \<and> readUInt32LE packet 2 = calculateCRC32 ([0xFF] @ Q)
        \<and> drop 6 packet = [0xFF] @ Q
        \<and> parseMessage packet = Inr Q)"
proof -
  let ?packet = "[0x42, 0x45] @ le_bytes (calculateCRC32 (0xFF # Q)) @ [0xFF] @ Q"
  have 1: "length ?packet = 7 + length Q" by (simp add: length_le_bytes)
  have 2: "take 2 ?packet = [0x42, 0x45]" by simp
  have "readUInt32LE ?packet 2 = calculateCRC32 (0xFF # Q)"
    by (rule readUInt32LE_le_bytes) (simp_all add: calculateCRC32_range)
  then have 3: "readUInt32LE ?packet 2 = calculateCRC32 ([0xFF] @ Q)" by simp
  have 4: "drop 6 ?packet = [0xFF] @ Q" by (simp add: length_le_bytes)
  have 5: "parseMessage ?packet = Inr Q" by (rule parseMessage_datagram)
  show ?thesis
    unfolding buildPacket_eq sum.case using 1 2 3 4 5 by blast
qed

section \<open>Execute outside the authenticated state\<close>

text \<open>
  C5. For a client of either protocol in any state other than \<open>AUTHENTICATED\<close>, \<open>execute\<close>
  fails with \<open>NOT_AUTHENTICATED\<close> and returns the client as it was: nothing is written to
  the socket, and the state, the table of pending entries and the id or sequence counter
  are unchanged.
\<close>

theorem execute_requires_authenticated:
  "(state c \<noteq> AUTHENTICATED \<longrightarrow>
      execute c command =
        (Inl (RconError NOT_AUTHENTICATED
                (Literal ''Not authenticated. Call connect() first.'') None), c))
   \<and> (be_state b \<noteq> AUTHENTICATED \<longrightarrow>
      be_execute b command =
        (Inl (RconError NOT_AUTHENTICATED
                (Literal ''Not authenticated. Call connect() first.'') None), b))"
  by (simp add: execute_def be_execute_def isAuthenticated_def be_isAuthenticated_def)

text \<open>
  The guard at a freshly constructed Source client and at a BattlEye client that is only
  \<open>CONNECTED\<close>.
\<close>

theorem execute_requires_authenticated_witness:
  "state (new_RconClient (str ''pw'')) \<noteq> AUTHENTICATED
   \<and> be_state (new_BattlEyeRconClient\<lparr>be_state := CONNECTED\<rparr>) \<noteq> AUTHENTICATED
   \<and> execute (new_RconClient (str ''pw'')) (str ''list'') =
        (Inl (RconError NOT_AUTHENTICATED
                (Literal ''Not authenticated. Call connect() first.'') None),
         new_RconClient (str ''pw''))
   \<and> socket (snd (execute (new_RconClient (str ''pw'')) (str ''list''))) = None
   \<and> be_execute (new_BattlEyeRconClient\<lparr>be_state := CONNECTED\<rparr>) (str ''players'') =
        (Inl (RconError NOT_AUTHENTICATED
                (Literal ''Not authenticated. Call connect() first.'') None),
         new_BattlEyeRconClient\<lparr>be_state := CONNECTED\<rparr>)"
  using execute_requires_authenticated
    [of "new_RconClient (str ''pw'')" "str ''list''"
        "new_BattlEyeRconClient\<lparr>be_state := CONNECTED\<rparr>"]
    execute_requires_authenticated
    [of "new_RconClient (str ''pw'')" "str ''players''"
        "new_BattlEyeRconClient\<lparr>be_state := CONNECTED\<rparr>"]
  by (simp add: new_RconClient_def new_BattlEyeRconClient_def)

section \<open>Disconnect\<close>

lemma cleanup_fields:
  "socket (cleanup c) = None" "pendingResponses (cleanup c) = []" "receiveBuffer (cleanup c) = []"
  "state (cleanup c) = state c" "requestId (cleanup c) = requestId c"
  "effects (cleanup c) = effects c @
     map (\<lambda>(key, pending). Rejected (pr_id pending)
            (RconError CONNECTION_FAILED (Literal ''Connection closed'') None))
         (pendingResponses c)"
  by (simp_all add: cleanup_def Let_def split: option.split)

lemma be_cleanup_fields:
  "be_socket (be_cleanup c) = None" "pendingCommands (be_cleanup c) = []"
  "heartbeatInterval (be_cleanup c) = False"
  "be_state (be_cleanup c) = be_state c"
  "be_effects (be_cleanup c) = be_effects c @
     map (\<lambda>(key, pending). Rejected (pc_sequenceNumber pending)
            (RconError CONNECTION_FAILED (Literal ''Connection closed'') None))
         (pendingCommands c)"
  by (simp_all add: be_cleanup_def stopHeartbeat_def Let_def split: option.split)

text \<open>
  C6. For every client in every state, \<open>disconnect\<close> returns without error; afterwards no
  entry is pending, the socket is gone and the state is \<open>DISCONNECTED\<close>. The effects it adds
  are, in this order: one rejection with \<open>CONNECTION_FAILED\<close>, \<open>Connection closed\<close>, for every
  entry that was pending, then the state change (when the state was not \<open>DISCONNECTED\<close>
  already), then the \<open>disconnected\<close> event.
\<close>

theorem disconnect_fails_pending_then_disconnected:
  "fst (disconnect c) = Inr ()
   \<and> pendingResponses (snd (disconnect c)) = []
   \<and> state (snd (disconnect c)) = DISCONNECTED
   \<and> socket (snd (disconnect c)) = None
   \<and> effects (snd (disconnect c)) =
       effects c
       @ map (\<lambda>(key, pending). Rejected (pr_id pending)
                (RconError CONNECTION_FAILED (Literal ''Connection closed'') None))
           (pendingResponses c)
       @ (if state c = DISCONNECTED then [] else [Emit (StateChange DISCONNECTED (state c))])
       @ [Emit Ev_disconnected]
   \<and> fst (be_disconnect b) = Inr ()
   \<and> pendingCommands (snd (be_disconnect b)) = []
   \<and> be_state (snd (be_disconnect b)) = DISCONNECTED
   \<and> be_socket (snd (be_disconnect b)) = None
   \<and> be_effects (snd (be_disconnect b)) =
       be_effects b
       @ map (\<lambda>(key, pending). Rejected (pc_sequenceNumber pending)
                (RconError CONNECTION_FAILED (Literal ''Connection closed'') None))
           (pendingCommands b)
       @ (if be_state b = DISCONNECTED then [] else [Emit (StateChange DISCONNECTED (be_state b))])
       @ [Emit Ev_disconnected]"
  by (simp add: disconnect_def be_disconnect_def setState_def be_setState_def Let_def
        cleanup_fields be_cleanup_fields)

section \<open>The heartbeat\<close>

lemma bufferFrom_utf8_empty: "bufferFrom_utf8 (str '''') = []"
  by (simp add: str_def)

text \<open>
  While the client is \<open>AUTHENTICATED\<close>, a heartbeat tick takes the next sequence number and
  hands the socket the datagram of the empty command \<open>{0x01, seq, ""}\<close>; the table of
  pending commands is unchanged and nothing is emitted or settled. When there is no socket
  the error that \<open>sendPacket\<close> throws is caught.
\<close>

lemma heartbeat_tick:
  "be_state c = AUTHENTICATED \<longrightarrow>
     pendingCommands (heartbeat c) = pendingCommands c
     \<and> be_effects (heartbeat c) = be_effects c
     \<and> be_state (heartbeat c) = AUTHENTICATED
     \<and> errorListeners (heartbeat c) = errorListeners c
     \<and> sequenceNumber (heartbeat c) = (sequenceNumber c + 1) mod 256
     \<and> (case be_socket c of
           None \<Rightarrow> be_socket (heartbeat c) = None
         | Some sock \<Rightarrow>
             (case buildPacket ([0x01, of_nat (sequenceNumber c)] @ bufferFrom_utf8 (str '''')) of
                Inl e \<Rightarrow> False
              | Inr packet \<Rightarrow>
                  be_socket (heartbeat c) = Some (sock\<lparr>sent := sent sock @ [packet]\<rparr>)))"
  by (simp add: heartbeat_def be_isAuthenticated_def getNextSequenceNumber_def
        be_sendPacket_def buildPacket_eq bufferFrom_utf8_empty
        split: option.split)

text \<open>
  When the transport reports that the datagram of a heartbeat could not be sent, what
  happens depends on the listeners of the \<open>error\<close> event. After \<open>on('error', ...)\<close> the only
  effect is the event. With no listener the \<open>RconError\<close> is thrown out of the send callback.
\<close>

lemma heartbeat_send_error_delivered:
  "be_state c = AUTHENTICATED \<Longrightarrow>
     be_sendPacket_failed (heartbeat (on_error c)) message =
       Inr ((heartbeat (on_error c))\<lparr>be_effects := be_effects c @
              [Emit (Ev_error (RconError SOCKET_ERROR (FailedToSend message)
                                 (Some (SystemError message))))]\<rparr>)"
  using heartbeat_tick[of "on_error c"] by (simp add: be_sendPacket_failed_def on_error_def)

lemma heartbeat_send_error_thrown:
  "be_state c = AUTHENTICATED \<Longrightarrow> errorListeners c = 0 \<Longrightarrow>
     be_sendPacket_failed (heartbeat c) message =
       Inl (RconError SOCKET_ERROR (FailedToSend message) (Some (SystemError message)))"
  using heartbeat_tick[of c] by (simp add: be_sendPacket_failed_def)

text \<open>
  The datagram of the heartbeat with sequence number 0: the checksum of \<open>0xFF 0x01 0x00\<close> is
  \<open>0x58C2DCBE\<close>.
\<close>

lemma crc32_heartbeat_rounds:
  "(crc32_shift ^^ 8) (4294967295 XOR ucast (0xFF :: byte)) = 16777215"
  "(crc32_shift ^^ 8) (16777215 XOR ucast (0x01 :: byte)) = 1510285540"
  "(crc32_shift ^^ 8) (1510285540 XOR ucast (0x00 :: byte)) = 2805801793"
  by code_simp+

lemma calculateCRC32_heartbeat: "calculateCRC32 [0xFF, 0x01, 0x00] = 0x58C2DCBE"
proof -
  have "crc32_standard [0xFF, 0x01, 0x00] = 0x58C2DCBE"
    unfolding crc32_standard_def
    by (simp only: crc32_register.simps crc32_heartbeat_rounds) simp
  then show ?thesis by (simp add: calculateCRC32_word)
qed

lemma le_bytes_heartbeat: "le_bytes 0x58C2DCBE = [0xBE, 0xDC, 0xC2, 0x58]"
  by code_simp

lemma buildPacket_heartbeat:
  "buildPacket [0x01, 0x00] = Inr [0x42, 0x45, 0xBE, 0xDC, 0xC2, 0x58, 0xFF, 0x01, 0x00]"
  by (simp only: buildPacket_eq calculateCRC32_heartbeat le_bytes_heartbeat) simp

text \<open>
  C8. The claim holds for the datagram and the table of pending commands, and fails for the
  send error. The client is the one the constructor builds, connected and \<open>AUTHENTICATED\<close>,
  with the heartbeat timer running and no listener for \<open>error\<close>. A heartbeat tick hands the
  socket the datagram \<open>BE\<close>, checksum, \<open>0xFF\<close>, \<open>0x01\<close>, \<open>0x00\<close> and registers no pending
  command. When the transport then reports \<open>send ENETUNREACH\<close> for it, the send callback
  throws the \<open>RconError\<close> that it meant to emit.
\<close>

theorem heartbeat_send_error_uncaught:
  "errorListeners new_BattlEyeRconClient = 0
   \<and> be_socket (heartbeat
        (new_BattlEyeRconClient\<lparr>be_socket := Some \<lparr>sent = []\<rparr>, be_state := AUTHENTICATED,
           heartbeatInterval := True\<rparr>))
       = Some \<lparr>sent = [[0x42, 0x45, 0xBE, 0xDC, 0xC2, 0x58, 0xFF, 0x01, 0x00]]\<rparr>
   \<and> pendingCommands (heartbeat
        (new_BattlEyeRconClient\<lparr>be_socket := Some \<lparr>sent = []\<rparr>, be_state := AUTHENTICATED,
           heartbeatInterval := True\<rparr>))
       = []
   \<and> be_sendPacket_failed
       (heartbeat
          (new_BattlEyeRconClient\<lparr>be_socket := Some \<lparr>sent = []\<rparr>, be_state := AUTHENTICATED,
             heartbeatInterval := True\<rparr>))
       ''send ENETUNREACH''
       = Inl (RconError SOCKET_ERROR (FailedToSend ''send ENETUNREACH'')
                (Some (SystemError ''send ENETUNREACH'')))"
  by (simp add: heartbeat_def be_isAuthenticated_def getNextSequenceNumber_def
        be_sendPacket_def be_sendPacket_failed_def new_BattlEyeRconClient_def
        buildPacket_heartbeat)

section \<open>Command responses that nobody waits for\<close>

text \<open>
  C10. A datagram that passes the header checks, whose payload has type \<open>0x01\<close> and whose
  sequence number (when the payload has one) has no pending entry, leaves the client exactly
  as it was, and \<open>handleMessage\<close> returns normally.
\<close>

theorem unmatched_command_response_dropped:
  "parseMessage msg = Inr payload \<Longrightarrow> payload \<noteq> [] \<Longrightarrow> hd payload = 0x01 \<Longrightarrow>
   (2 \<le> length payload \<longrightarrow> map_of (pendingCommands c) (unat (payload ! 1)) = None) \<Longrightarrow>
   handleMessage decode c msg = Inr c"
  by (cases payload)
    (auto simp: handleMessage_def handleCommandResponse_def Let_def Suc_le_eq
          split: option.splits)

text \<open>
  A response with sequence number 5 while only sequence number 3 is pending.
\<close>

theorem unmatched_command_response_dropped_witness:
  "parseMessage ([0x42, 0x45] @ le_bytes (calculateCRC32 (0xFF # [0x01, 5])) @ [0xFF] @ [0x01, 5])
     = Inr [0x01, 5]
   \<and> map_of (pendingCommands
         (new_BattlEyeRconClient\<lparr>be_state := AUTHENTICATED,
            pendingCommands := [(3, \<lparr>pc_sequenceNumber = 3\<rparr>)]\<rparr>)) (unat (5 :: byte)) = None
   \<and> handleMessage toString_ascii
         (new_BattlEyeRconClient\<lparr>be_state := AUTHENTICATED,
            pendingCommands := [(3, \<lparr>pc_sequenceNumber = 3\<rparr>)]\<rparr>)
         ([0x42, 0x45] @ le_bytes (calculateCRC32 (0xFF # [0x01, 5])) @ [0xFF] @ [0x01, 5])
       = Inr (new_BattlEyeRconClient\<lparr>be_state := AUTHENTICATED,
                pendingCommands := [(3, \<lparr>pc_sequenceNumber = 3\<rparr>)]\<rparr>)"
  using unmatched_command_response_dropped
    [OF parseMessage_datagram [of "[0x01, 5]"],
     of "new_BattlEyeRconClient\<lparr>be_state := AUTHENTICATED,
            pendingCommands := [(3, \<lparr>pc_sequenceNumber = 3\<rparr>)]\<rparr>" toString_ascii]
    parseMessage_datagram [of "[0x01, 5]"]
  by (simp add: new_BattlEyeRconClient_def)

section \<open>The loop of handleData\<close>

text \<open>
  \<open>handlePacket\<close> neither reads nor writes the receive buffer, so the loop of \<open>handleData\<close>
  hands exactly the packets of \<open>frames\<close> to \<open>handlePacket\<close>, in order, and leaves the buffer
  that \<open>frames\<close> leaves.
\<close>

lemma frames_Nil: "frames [] = ([], [])"
  by (simp add: frames.simps)

lemma frames_short: "length buf < 4 \<Longrightarrow> frames buf = ([], buf)"
  by (simp add: frames.simps)

lemma handlePacket_receiveBuffer_update:
  "handlePacket (c\<lparr>receiveBuffer := b\<rparr>) p = (handlePacket c p)\<lparr>receiveBuffer := b\<rparr>"
  by (simp add: handlePacket_def Let_def split: list.splits option.splits prod.splits)

lemma handlePacket_receiveBuffer: "receiveBuffer (handlePacket c p) = receiveBuffer c"
  by (simp add: handlePacket_def Let_def split: list.splits option.splits prod.splits)

lemma handleData_while_frames:
  "handleData_while c =
     foldl handlePacket (c\<lparr>receiveBuffer := snd (frames (receiveBuffer c))\<rparr>)
       (fst (frames (receiveBuffer c)))"
proof (induction c rule: handleData_while.induct)
  case (1 c)
  let ?buf = "receiveBuffer c"
  show ?case
  proof (cases "4 \<le> length ?buf")
    case False
    then show ?thesis by (subst handleData_while.simps) (simp add: frames_short)
  next
    case long: True
    let ?size = "readInt32LE ?buf 0"
    show ?thesis
    proof (cases "?size < MIN_PACKET_SIZE \<or> ?size > MAX_PACKET_SIZE")
      case True
      then have "frames ?buf = ([], [])" using long by (subst frames.simps) (simp add: Let_def)
      then show ?thesis using True long by (subst handleData_while.simps) (simp add: Let_def)
    next
      case ok: False
      show ?thesis
      proof (cases "int (length ?buf) < ?size + 4")
        case True
        then have "frames ?buf = ([], ?buf)"
          using long ok by (subst frames.simps) (simp add: Let_def)
        then show ?thesis
          using True long ok by (subst handleData_while.simps) (simp add: Let_def)
      next
        case False
        let ?rest = "drop (nat (?size + 4)) ?buf"
        let ?p = "parsePacket ?size (take (nat ?size) (drop 4 ?buf))"
        let ?c' = "handlePacket (c\<lparr>receiveBuffer := ?rest\<rparr>) ?p"
        have fb: "frames ?buf = (?p # fst (frames ?rest), snd (frames ?rest))"
          using long ok False by (subst frames.simps) (simp add: Let_def)
        have hw: "handleData_while c = handleData_while ?c'"
          using long ok False by (subst handleData_while.simps) (simp add: Let_def)
        have rb: "receiveBuffer ?c' = ?rest" by (simp add: handlePacket_receiveBuffer)
        have IH: "handleData_while ?c' =
            foldl handlePacket (?c'\<lparr>receiveBuffer := snd (frames ?rest)\<rparr>) (fst (frames ?rest))"
          using "1.IH"[OF long refl ok False] rb by simp
        have "?c'\<lparr>receiveBuffer := snd (frames ?rest)\<rparr> =
            handlePacket (c\<lparr>receiveBuffer := snd (frames ?rest)\<rparr>) ?p"
          by (simp add: handlePacket_receiveBuffer_update[symmetric])
        then show ?thesis unfolding hw IH fb by simp
      qed
    qed
  qed
qed

text \<open>
  One call of \<open>handleData\<close> handles the packets of \<open>frames\<close> on the buffer with the new data
  appended, and leaves the buffer \<open>frames\<close> leaves.
\<close>

lemma handleData_frames:
  "handleData c data =
     foldl handlePacket (c\<lparr>receiveBuffer := snd (frames (receiveBuffer c @ data))\<rparr>)
       (fst (frames (receiveBuffer c @ data)))"
  by (simp add: handleData_def handleData_while_frames)

lemma foldl_handlePacket_receiveBuffer:
  "receiveBuffer (foldl handlePacket c ps) = receiveBuffer c"
  by (induction ps arbitrary: c) (simp_all add: handlePacket_receiveBuffer)

lemma foldl_handlePacket_receiveBuffer_update:
  "foldl handlePacket (c\<lparr>receiveBuffer := b\<rparr>) ps = (foldl handlePacket c ps)\<lparr>receiveBuffer := b\<rparr>"
  by (induction ps arbitrary: c) (simp_all add: handlePacket_receiveBuffer_update)

section \<open>Source packets: encoding and decoding\<close>

text \<open>
  Decoding what \<open>sendPacket\<close> encoded gives the packet back with every body character
  reduced to its low seven bits.
\<close>

lemma ascii_unit: "(c :: 16 word) < 0x80 \<Longrightarrow> ucast ((ucast c :: byte) AND 0x7F) = c"
proof -
  assume a: "c < 0x80"
  have "c < 2 ^ 7" using a by simp
  then have "c AND mask 7 = c" by (rule less_mask_eq)
  then have t: "take_bit 7 c = c" by (simp add: take_bit_eq_mask)
  have m: "(0x7F :: byte) = mask 7" by (simp add: mask_eq_exp_minus_1)
  have "ucast ((ucast c :: byte) AND mask 7) = take_bit 7 c"
    by (rule bit_word_eqI) (auto simp add: bit_simps)
  then show ?thesis by (simp only: t m)
qed

lemma toString_bufferFrom_ascii:
  "\<forall>u \<in> set s. u < 0x80 \<Longrightarrow> toString_ascii (bufferFrom_ascii s) = s"
  by (induction s) (simp_all add: toString_ascii_def bufferFrom_ascii_def ascii_unit)

lemma encodePacket_bytes:
  assumes "- 2147483648 \<le> i" "i \<le> 2147483647" "- 2147483648 \<le> t" "t \<le> 2147483647"
    and "length b \<le> 4100"
  shows "encodePacket i t b =
    Inr (le_bytes (10 + int (length b)) @ le_bytes i @ le_bytes t @ bufferFrom_ascii b @ [0, 0])"
  using assms
  by (simp add: encodePacket_def writeInt32LE_def MAX_PACKET_SIZE_def bufferFrom_ascii_def)

lemma parsePacket_bytes:
  assumes "- 2147483648 \<le> i" "i \<le> 2147483647" "- 2147483648 \<le> t" "t \<le> 2147483647"
    and "length bs = n"
  shows "parsePacket (10 + int n) (le_bytes i @ le_bytes t @ bs @ [0, 0]) =
    \<lparr>pkt_size = 10 + int n, pkt_id = i, pkt_type = t, pkt_body = toString_ascii bs\<rparr>"
proof -
  let ?pb = "le_bytes i @ le_bytes t @ bs @ [0, 0]"
  have i: "readInt32LE ([] @ le_bytes i @ (le_bytes t @ bs @ [0, 0])) 0 = i"
    by (rule readInt32LE_le_bytes) (simp_all add: assms)
  have t: "readInt32LE (le_bytes i @ le_bytes t @ (bs @ [0, 0])) 4 = t"
    by (rule readInt32LE_le_bytes) (simp_all add: assms length_le_bytes)
  have b: "take n (drop 8 ?pb) = bs"
    using assms(5) by (simp add: length_le_bytes)
  show ?thesis
    unfolding parsePacket_def Let_def using i t b by simp
qed

lemma frames_encoded:
  assumes "- 2147483648 \<le> i" "i \<le> 2147483647" "- 2147483648 \<le> t" "t \<le> 2147483647"
    and "length b \<le> 4100"
  shows "frames (le_bytes (10 + int (length b)) @ le_bytes i @ le_bytes t
                   @ bufferFrom_ascii b @ [0, 0]) =
    ([\<lparr>pkt_size = 10 + int (length b), pkt_id = i, pkt_type = t,
        pkt_body = toString_ascii (bufferFrom_ascii b)\<rparr>], [])"
proof -
  let ?n = "length b"
  let ?size = "10 + int ?n"
  let ?pb = "le_bytes i @ le_bytes t @ bufferFrom_ascii b @ [0, 0]"
  let ?buf = "le_bytes ?size @ ?pb"
  have lb: "length (bufferFrom_ascii b) = ?n" by (simp add: bufferFrom_ascii_def)
  have len: "length ?buf = 14 + ?n" by (simp add: length_le_bytes lb)
  have sz: "readInt32LE ?buf 0 = ?size"
    using readInt32LE_le_bytes[of ?size "[]" 0 ?pb] assms(5) by simp
  have tk: "take (nat ?size) (drop 4 ?buf) = ?pb"
    by (simp add: length_le_bytes lb)
  have dr: "drop (nat (?size + 4)) ?buf = []"
    by (simp add: length_le_bytes lb)
  have pp: "parsePacket ?size ?pb =
      \<lparr>pkt_size = ?size, pkt_id = i, pkt_type = t,
       pkt_body = toString_ascii (bufferFrom_ascii b)\<rparr>"
    by (rule parsePacket_bytes) (simp_all add: assms lb)
  show ?thesis
    apply (subst frames.simps)
    apply (simp only: sz len Let_def tk dr pp frames_Nil)
    using assms(5) apply (simp add: MIN_PACKET_SIZE_def MAX_PACKET_SIZE_def)
    done
qed

lemma encodePacket_too_large:
  "(\<exists>m. encodePacket i t b = Inl (RconError INVALID_PACKET m None)) \<longleftrightarrow>
     4110 < 4 + 4 + int (length b) + 2"
  by (auto simp add: encodePacket_def writeInt32LE_def MAX_PACKET_SIZE_def bufferFrom_ascii_def
        Let_def split: sum.splits if_splits)

text \<open>
  C1, amended. For every Source packet \<open>P\<close> whose id and type are signed 32-bit values,
  whose size field is \<open>4 + 4 + len(body) + 2\<close>, whose body has at most 4086 code units and
  consists of 7-bit ASCII characters only (the client's default payload encoding):
  \<open>sendPacket\<close> encodes \<open>P\<close> as little-endian size, id, type, the body bytes and two null
  bytes; the framer decodes these bytes to exactly \<open>P\<close>, with nothing left in the buffer, and
  \<open>handleData\<close> on them handles exactly \<open>P\<close>. Encoding fails with \<open>INVALID_PACKET\<close> exactly when
  the size exceeds 4110.
\<close>

theorem encode_decode_ascii:
  assumes "- 2147483648 \<le> pkt_id P" "pkt_id P \<le> 2147483647"
    and "- 2147483648 \<le> pkt_type P" "pkt_type P \<le> 2147483647"
    and "pkt_size P = 4 + 4 + int (length (pkt_body P)) + 2"
    and "length (pkt_body P) \<le> 4086"
    and "\<forall>u \<in> set (pkt_body P). u < 0x80"
  shows "encodePacket (pkt_id P) (pkt_type P) (pkt_body P) =
           Inr (le_bytes (pkt_size P) @ le_bytes (pkt_id P) @ le_bytes (pkt_type P)
                  @ bufferFrom_ascii (pkt_body P) @ [0, 0])
         \<and> frames (le_bytes (pkt_size P) @ le_bytes (pkt_id P) @ le_bytes (pkt_type P)
                  @ bufferFrom_ascii (pkt_body P) @ [0, 0]) = ([P], [])
         \<and> (\<forall>c. receiveBuffer c = [] \<longrightarrow>
               handleData c (le_bytes (pkt_size P) @ le_bytes (pkt_id P) @ le_bytes (pkt_type P)
                  @ bufferFrom_ascii (pkt_body P) @ [0, 0]) = handlePacket c P)
         \<and> ((\<exists>m. encodePacket i t b = Inl (RconError INVALID_PACKET m None)) \<longleftrightarrow>
              4110 < 4 + 4 + int (length b) + 2)"
proof -
  let ?bytes = "le_bytes (pkt_size P) @ le_bytes (pkt_id P) @ le_bytes (pkt_type P)
                  @ bufferFrom_ascii (pkt_body P) @ [0, 0]"
  have s: "pkt_size P = 10 + int (length (pkt_body P))" using assms(5) by simp
  have l: "length (pkt_body P) \<le> 4100" using assms(6) by simp
  have P: "\<lparr>pkt_size = 10 + int (length (pkt_body P)), pkt_id = pkt_id P, pkt_type = pkt_type P,
        pkt_body = toString_ascii (bufferFrom_ascii (pkt_body P))\<rparr> = P"
    using toString_bufferFrom_ascii[OF assms(7)] s by simp
  have e: "encodePacket (pkt_id P) (pkt_type P) (pkt_body P) = Inr ?bytes"
    using encodePacket_bytes[OF assms(1-4) l] unfolding s by simp
  have f: "frames ?bytes = ([P], [])"
    using frames_encoded[OF assms(1-4) l] unfolding P s by simp
  have h: "handleData c ?bytes = handlePacket c P" if "receiveBuffer c = []"
    for c :: RconClient
  proof -
    have eq: "c\<lparr>receiveBuffer := []\<rparr> = c" by (subst that[symmetric]) simp
    have "handleData c ?bytes = handlePacket (c\<lparr>receiveBuffer := []\<rparr>) P"
      using handleData_frames[of c ?bytes] that f by simp
    then show ?thesis by (simp only: eq)
  qed
  from e f h encodePacket_too_large[of i t b] show ?thesis by blast
qed

text \<open>
  The round trip of the command packet \<open>list\<close> with id 7.
\<close>

theorem encode_decode_ascii_witness:
  "encodePacket 7 2 (str ''list'') =
     Inr (le_bytes 14 @ le_bytes 7 @ le_bytes 2 @ bufferFrom_ascii (str ''list'') @ [0, 0])
   \<and> frames (le_bytes 14 @ le_bytes 7 @ le_bytes 2 @ bufferFrom_ascii (str ''list'') @ [0, 0])
       = ([\<lparr>pkt_size = 14, pkt_id = 7, pkt_type = 2, pkt_body = str ''list''\<rparr>], [])"
  using encode_decode_ascii
    [of "\<lparr>pkt_size = 14, pkt_id = 7, pkt_type = 2, pkt_body = str ''list''\<rparr>"]
  by (simp add: str_def)

text \<open>
  C1 as stated fails on a body with a character outside 7-bit ASCII: the packet with id 1,
  type 0 and the one-character body U+00E9 is encoded with the body byte \<open>0xE9\<close> and decoded
  with the body U+0069, because decoding with \<open>'ascii'\<close> clears the highest bit.
\<close>

theorem encode_decode_high_bit_counterexample:
  "encodePacket 1 0 [0xE9] = Inr [11, 0, 0, 0, 1, 0, 0, 0, 0, 0, 0, 0, 0xE9, 0, 0]
   \<and> frames [11, 0, 0, 0, 1, 0, 0, 0, 0, 0, 0, 0, 0xE9, 0, 0] =
       ([\<lparr>pkt_size = 11, pkt_id = 1, pkt_type = 0, pkt_body = [0x69]\<rparr>], [])
   \<and> frames [11, 0, 0, 0, 1, 0, 0, 0, 0, 0, 0, 0, 0xE9, 0, 0] \<noteq>
       ([\<lparr>pkt_size = 11, pkt_id = 1, pkt_type = 0, pkt_body = [0xE9]\<rparr>], [])"
proof -
  have e: "le_bytes (10 + int (length [0xE9 :: 16 word])) @ le_bytes 1 @ le_bytes 0
             @ bufferFrom_ascii [0xE9] @ [0, 0]
           = [11, 0, 0, 0, 1, 0, 0, 0, 0, 0, 0, 0, 0xE9, 0, 0]"
    by (simp add: le_bytes_def bufferFrom_ascii_def)
  have m: "toString_ascii (bufferFrom_ascii [0xE9]) = [0x69]"
    by (simp add: toString_ascii_def bufferFrom_ascii_def)
  have 1: "encodePacket 1 0 [0xE9] = Inr [11, 0, 0, 0, 1, 0, 0, 0, 0, 0, 0, 0, 0xE9, 0, 0]"
    using encodePacket_bytes[of 1 0 "[0xE9]"] unfolding e by simp
  have 2: "frames [11, 0, 0, 0, 1, 0, 0, 0, 0, 0, 0, 0, 0xE9, 0, 0] =
       ([\<lparr>pkt_size = 11, pkt_id = 1, pkt_type = 0, pkt_body = [0x69]\<rparr>], [])"
    using frames_encoded[of 1 0 "[0xE9]"] unfolding e m by simp
  show ?thesis using 1 2 by simp
qed

section \<open>Incremental framing\<close>

text \<open>
  As long as the framer meets no bad size field, framing a buffer and then more data is
  framing the whole: the packets of \<open>b @ d\<close> are those of \<open>b\<close> followed by those of what \<open>b\<close>
  left together with \<open>d\<close>.
\<close>

lemma readInt32LE_append: "4 \<le> length buf \<Longrightarrow> readInt32LE (buf @ d) 0 = readInt32LE buf 0"
proof -
  assume "4 \<le> length buf"
  then have "(buf @ d) ! i = buf ! i" if "i < 4" for i
    using that by (simp add: nth_append_left)
  then show ?thesis by (simp add: readInt32LE_def readUInt32LE_def)
qed

lemma frames_append:
  "\<not> desync (b @ d) \<Longrightarrow>
     frames (b @ d) = (fst (frames b) @ fst (frames (snd (frames b) @ d)),
                       snd (frames (snd (frames b) @ d)))
     \<and> \<not> desync (snd (frames b) @ d)"
proof (induction b rule: frames.induct)
  case (1 buf)
  show ?case
  proof (cases "4 \<le> length buf")
    case False
    then have "frames buf = ([], buf)" by (simp add: frames_short)
    then show ?thesis using "1.prems" by simp
  next
    case long: True
    let ?size = "readInt32LE buf 0"
    have rd: "readInt32LE (buf @ d) 0 = ?size" using long by (rule readInt32LE_append)
    have ok: "\<not> (?size < MIN_PACKET_SIZE \<or> ?size > MAX_PACKET_SIZE)"
      using "1.prems" long rd by (subst (asm) desync.simps) (auto simp: Let_def)
    show ?thesis
    proof (cases "int (length buf) < ?size + 4")
      case True
      then have "frames buf = ([], buf)" using long ok by (subst frames.simps) (simp add: Let_def)
      then show ?thesis using "1.prems" by simp
    next
      case False
      let ?k = "nat (?size + 4)"
      let ?rest = "drop ?k buf"
      have k: "?k \<le> length buf" using False by simp
      have fb: "frames buf =
          (parsePacket ?size (take (nat ?size) (drop 4 buf)) # fst (frames ?rest),
           snd (frames ?rest))"
        using long ok False by (subst frames.simps) (simp add: Let_def)
      have tk: "take (nat ?size) (drop 4 (buf @ d)) = take (nat ?size) (drop 4 buf)"
        using False long by simp
      have dr: "drop ?k (buf @ d) = ?rest @ d" using k by simp
      have fbd: "frames (buf @ d) =
          (parsePacket ?size (take (nat ?size) (drop 4 buf)) # fst (frames (?rest @ d)),
           snd (frames (?rest @ d)))"
        using long ok False
        by (subst frames.simps) (simp add: Let_def rd tk dr del: append_assoc)
      have ds: "desync (buf @ d) = desync (?rest @ d)"
        using long ok False by (subst desync.simps) (simp add: Let_def rd dr)
      have IH: "frames (?rest @ d) =
           (fst (frames ?rest) @ fst (frames (snd (frames ?rest) @ d)),
            snd (frames (snd (frames ?rest) @ d)))
          \<and> \<not> desync (snd (frames ?rest) @ d)"
        using "1.IH"[OF long refl ok False] "1.prems" ds by simp
      show ?thesis
        unfolding fbd fb using IH by simp
    qed
  qed
qed

lemma frames_idem: "frames (snd (frames b)) = ([], snd (frames b))"
proof (induction b rule: frames.induct)
  case (1 buf)
  show ?case
  proof (cases "4 \<le> length buf")
    case False
    then show ?thesis by (simp add: frames_short)
  next
    case long: True
    let ?size = "readInt32LE buf 0"
    show ?thesis
    proof (cases "?size < MIN_PACKET_SIZE \<or> ?size > MAX_PACKET_SIZE")
      case True
      then have "frames buf = ([], [])" using long by (subst frames.simps) (simp add: Let_def)
      then show ?thesis by (simp add: frames_Nil)
    next
      case ok: False
      show ?thesis
      proof (cases "int (length buf) < ?size + 4")
        case True
        then have "frames buf = ([], buf)"
          using long ok by (subst frames.simps) (simp add: Let_def)
        then show ?thesis by simp
      next
        case False
        have "snd (frames buf) = snd (frames (drop (nat (?size + 4)) buf))"
          using long ok False by (subst frames.simps) (simp add: Let_def)
        then show ?thesis using "1.IH"[OF long refl ok False] by simp
      qed
    qed
  qed
qed

lemma feed_frames:
  "frames buf = ([], buf) \<Longrightarrow> \<not> desync (buf @ concat chunks) \<Longrightarrow>
     feed buf chunks = frames (buf @ concat chunks)"
proof (induction chunks arbitrary: buf)
  case Nil
  then show ?case by simp
next
  case (Cons d ds)
  let ?r = "frames (buf @ d)"
  have nd: "\<not> desync ((buf @ d) @ concat ds)" using Cons.prems(2) by simp
  note A = frames_append[OF nd]
  have "feed (snd ?r) ds = frames (snd ?r @ concat ds)"
    using Cons.IH[OF frames_idem] A by simp
  then show ?case using A by (simp add: Let_def)
qed

text \<open>
  A sequence of \<open>handleData\<close> calls handles the packets of \<open>feed\<close>.
\<close>

lemma foldl_handleData_feed:
  "foldl handleData c chunks =
     foldl handlePacket (c\<lparr>receiveBuffer := snd (feed (receiveBuffer c) chunks)\<rparr>)
       (fst (feed (receiveBuffer c) chunks))"
proof (induction chunks arbitrary: c)
  case Nil
  then show ?case by simp
next
  case (Cons d ds)
  let ?r = "frames (receiveBuffer c @ d)"
  let ?c1 = "handleData c d"
  have c1: "?c1 = foldl handlePacket (c\<lparr>receiveBuffer := snd ?r\<rparr>) (fst ?r)"
    by (rule handleData_frames)
  have rb: "receiveBuffer ?c1 = snd ?r"
    by (simp add: c1 foldl_handlePacket_receiveBuffer)
  have "foldl handleData c (d # ds) = foldl handleData ?c1 ds" by simp
  also have "\<dots> = foldl handlePacket (?c1\<lparr>receiveBuffer := snd (feed (snd ?r) ds)\<rparr>)
                      (fst (feed (snd ?r) ds))"
    using Cons.IH[of ?c1] rb by simp
  also have "?c1\<lparr>receiveBuffer := snd (feed (snd ?r) ds)\<rparr> =
      foldl handlePacket (c\<lparr>receiveBuffer := snd (feed (snd ?r) ds)\<rparr>) (fst ?r)"
    by (simp add: c1 foldl_handlePacket_receiveBuffer_update)
  finally show ?case by (simp add: Let_def)
qed

text \<open>
  C9, amended. For every byte stream \<open>S\<close> on which the framer never meets a size field
  outside \<open>10..4110\<close>, feeding \<open>S\<close> one byte at a time (or in any other chunking) to a client
  with an empty receive buffer yields the same packets, in the same order, and leaves the
  same buffer as feeding \<open>S\<close> in one call; the client ends in the same state.
\<close>

theorem framing_chunk_independent:
  "\<not> desync S \<Longrightarrow>
     feed [] (map (\<lambda>b. [b]) S) = frames S
     \<and> (\<forall>chunks. concat chunks = S \<longrightarrow> feed [] chunks = frames S)
     \<and> (\<forall>c. receiveBuffer c = [] \<longrightarrow>
            foldl handleData c (map (\<lambda>b. [b]) S) = handleData c S)"
proof -
  assume nd: "\<not> desync S"
  have c: "concat (map (\<lambda>b. [b]) S) = S" by (induction S) simp_all
  have g: "feed [] chunks = frames S" if "concat chunks = S" for chunks
    using feed_frames[of "[]" chunks] nd that by (simp add: frames_Nil)
  have h: "foldl handleData c (map (\<lambda>b. [b]) S) = handleData c S"
    if "receiveBuffer c = []" for c :: RconClient
  proof -
    have "foldl handleData c (map (\<lambda>b. [b]) S) =
        foldl handlePacket (c\<lparr>receiveBuffer := snd (feed [] (map (\<lambda>b. [b]) S))\<rparr>)
          (fst (feed [] (map (\<lambda>b. [b]) S)))"
      using foldl_handleData_feed[of c "map (\<lambda>b. [b]) S"] that by simp
    also have "\<dots> = foldl handlePacket (c\<lparr>receiveBuffer := snd (frames S)\<rparr>) (fst (frames S))"
      by (simp only: g[OF c])
    also have "\<dots> = handleData c S"
      using handleData_frames[of c S] that by simp
    finally show ?thesis .
  qed
  show ?thesis using g c h by blast
qed

lemma desync_Nil: "\<not> desync []"
  by (simp add: desync.simps)

lemma readInt32LE_10: "readInt32LE (10 # 0 # 0 # 0 # rest) 0 = 10"
  by (simp add: readInt32LE_def readUInt32LE_def)

lemma not_desync_empty_packet: "\<not> desync [10, 0, 0, 0, 1, 0, 0, 0, 0, 0, 0, 0, 0, 0]"
  by (subst desync.simps)
    (simp add: readInt32LE_10 desync_Nil Let_def MIN_PACKET_SIZE_def MAX_PACKET_SIZE_def)

text \<open>
  The stream that holds one empty response with id 1.
\<close>

theorem framing_chunk_independent_witness:
  "\<not> desync [10, 0, 0, 0, 1, 0, 0, 0, 0, 0, 0, 0, 0, 0]
   \<and> feed [] (map (\<lambda>b. [b]) [10, 0, 0, 0, 1, 0, 0, 0, 0, 0, 0, 0, 0, 0])
       = frames [10, 0, 0, 0, 1, 0, 0, 0, 0, 0, 0, 0, 0, 0]"
  using framing_chunk_independent[OF not_desync_empty_packet] not_desync_empty_packet
  by blast

text \<open>
  C9 as stated fails on a stream with a bad size field: four zero bytes followed by an empty
  response. In one call the framer reads size 0 and empties the whole buffer, so no packet
  comes out; byte by byte it empties the buffer after the fourth byte and then frames the
  response.
\<close>

theorem framing_desync_counterexample:
  "frames [0, 0, 0, 0, 10, 0, 0, 0, 1, 0, 0, 0, 0, 0, 0, 0, 0, 0] = ([], [])
   \<and> feed [] (map (\<lambda>b. [b]) [0, 0, 0, 0, 10, 0, 0, 0, 1, 0, 0, 0, 0, 0, 0, 0, 0, 0])
       = ([\<lparr>pkt_size = 10, pkt_id = 1, pkt_type = 0, pkt_body = []\<rparr>], [])"
  by code_simp

section \<open>Assembly of a multi-fragment response\<close>

text \<open>
  \<open>in_flight\<close> is kept by every packet that is neither an auth failure nor the terminator;
  the entry changes only by the fragments appended to it.
\<close>

lemma table_all_iff:
  "distinct (map fst T) \<Longrightarrow>
     (\<forall>(key, p) \<in> set T. Q key p) \<longleftrightarrow> (\<forall>key p. map_of T key = Some p \<longrightarrow> Q key p)"
  by auto

lemma find_SomeD: "find P xs = Some x \<Longrightarrow> P x \<and> x \<in> set xs"
  by (induction xs) (auto split: if_splits)

lemma in_flight_delete:
  assumes "in_flight c cid tid e" and "k \<noteq> cid"
  shows "in_flight (c\<lparr>pendingResponses := AList.delete k (pendingResponses c), effects := x\<rparr>)
           cid tid e"
proof -
  let ?T = "pendingResponses c"
  have d: "distinct (map fst ?T)" using assms(1) by (simp add: in_flight_def)
  have d': "distinct (map fst (AList.delete k ?T))" using d by (rule distinct_delete)
  have sub: "set (AList.delete k ?T) \<subseteq> set ?T" by (auto simp: AList.delete_eq)
  have a: "\<forall>(key, p) \<in> set ?T. pr_id p = key \<and> (terminatorId p = Some tid \<longrightarrow> key = cid)"
    using assms(1) by (simp add: in_flight_def)
  have a': "\<forall>(key, p) \<in> set (AList.delete k ?T).
              pr_id p = key \<and> (terminatorId p = Some tid \<longrightarrow> key = cid)"
    using a sub by blast
  have m: "map_of (AList.delete k ?T) cid = map_of ?T cid" using assms(2) by simp
  have t: "map_of (AList.delete k ?T) tid = None"
    using assms(1) by (simp add: in_flight_def delete_conv')
  show ?thesis
    using assms(1) d' a' m t unfolding in_flight_def by simp
qed

lemma in_flight_update:
  assumes "in_flight c cid tid e" and "map_of (pendingResponses c) k = Some p"
  shows "in_flight
           (c\<lparr>pendingResponses := AList.update k (p\<lparr>responses := r\<rparr>) (pendingResponses c)\<rparr>)
           cid tid (if k = cid then e\<lparr>responses := r\<rparr> else e)"
proof -
  let ?T = "pendingResponses c"
  let ?T' = "AList.update k (p\<lparr>responses := r\<rparr>) ?T"
  have d: "distinct (map fst ?T)" using assms(1) by (simp add: in_flight_def)
  have d': "distinct (map fst ?T')" using d by (rule distinct_update)
  have a: "\<forall>key q. map_of ?T key = Some q \<longrightarrow>
             pr_id q = key \<and> (terminatorId q = Some tid \<longrightarrow> key = cid)"
    using assms(1) d by (auto simp: in_flight_def)
  have kt: "k \<noteq> tid" using assms by (auto simp: in_flight_def)
  have a': "\<forall>key q. map_of ?T' key = Some q \<longrightarrow>
             pr_id q = key \<and> (terminatorId q = Some tid \<longrightarrow> key = cid)"
    using a assms(2) by (auto simp: update_conv' split: if_splits)
  then have a'': "\<forall>(key, q) \<in> set ?T'.
             pr_id q = key \<and> (terminatorId q = Some tid \<longrightarrow> key = cid)"
    using d' by (simp only: table_all_iff)
  have e: "map_of ?T cid = Some e" using assms(1) by (simp add: in_flight_def)
  have m: "map_of ?T' cid = Some (if k = cid then e\<lparr>responses := r\<rparr> else e)"
    using e assms(2) by (auto simp: update_conv')
  have t: "map_of ?T' tid = None"
    using assms(1) kt by (simp add: in_flight_def update_conv')
  show ?thesis
    using assms(1) d' a'' m t unfolding in_flight_def by simp
qed

lemma in_flight_step:
  assumes inv: "in_flight c cid tid e"
    and q1: "pkt_id q \<noteq> AUTH_FAILURE_ID" and q2: "pkt_id q \<noteq> tid"
  shows "in_flight (handlePacket c q) cid tid
           (if pkt_id q = cid \<and> pkt_type q = SERVERDATA_RESPONSE_VALUE
            then e\<lparr>responses := responses e @ [pkt_body q]\<rparr> else e)"
proof -
  let ?T = "pendingResponses c"
  have st: "state c = AUTHENTICATED" and d: "distinct (map fst ?T)"
    and me: "map_of ?T cid = Some e" and te: "terminatorId e = Some tid"
    and tc: "tid \<noteq> cid"
    using inv by (simp_all add: in_flight_def)
  have a: "\<forall>key p. map_of ?T key = Some p \<longrightarrow>
             pr_id p = key \<and> (terminatorId p = Some tid \<longrightarrow> key = cid)"
    using inv d by (auto simp: in_flight_def)
  show ?thesis
  proof (cases "map_of ?T (pkt_id q)")
    case None
    then have nc: "pkt_id q \<noteq> cid" using me by auto
    show ?thesis
    proof (cases "find (\<lambda>(commandId, p). isTerminatorOf (pkt_id q) p) ?T")
      case nf: None
      then have "handlePacket c q = c" using None q1 by (simp add: handlePacket_def)
      then show ?thesis using inv nc by simp
    next
      case (Some kp)
      obtain k p where kp: "kp = (k, p)" by (cases kp)
      have "(k, p) \<in> set ?T" "isTerminatorOf (pkt_id q) p"
        using find_SomeD[OF Some] kp by auto
      then have mk: "map_of ?T k = Some p" and tp: "terminatorId p = Some (pkt_id q)"
        using d by (auto simp: isTerminatorOf_def split: option.splits)
      have "k \<noteq> cid" using mk tp me te q2 by auto
      then have "in_flight (c\<lparr>pendingResponses := AList.delete k ?T,
                    effects := effects c @ [Resolved (pr_id p) (responses p)]\<rparr>) cid tid e"
        using inv by (rule in_flight_delete[rotated])
      moreover have "handlePacket c q = c\<lparr>pendingResponses := AList.delete k ?T,
                    effects := effects c @ [Resolved (pr_id p) (responses p)]\<rparr>"
        using None Some kp q1 by (simp add: handlePacket_def)
      ultimately show ?thesis using nc by simp
    qed
  next
    case (Some pending)
    have pk: "pr_id pending = pkt_id q" using a Some by blast
    show ?thesis
    proof (cases "pkt_type q = SERVERDATA_RESPONSE_VALUE")
      case False
      then have "handlePacket c q = c" using Some q1 st by (simp add: handlePacket_def)
      then show ?thesis using inv False by simp
    next
      case ty: True
      show ?thesis
      proof (cases "isTerminatorOf (pkt_id q) pending")
        case True
        have nc: "pkt_id q \<noteq> cid"
        proof
          assume "pkt_id q = cid"
          then have "pending = e" using Some me by simp
          then show False using True te tc \<open>pkt_id q = cid\<close>
            by (simp add: isTerminatorOf_def)
        qed
        have "handlePacket c q = c\<lparr>pendingResponses := AList.delete (pkt_id q) ?T,
                effects := effects c @ [Resolved (pr_id pending) (responses pending)]\<rparr>"
          using Some q1 st ty True pk by (simp add: handlePacket_def)
        moreover have "in_flight (c\<lparr>pendingResponses := AList.delete (pkt_id q) ?T,
                effects := effects c @ [Resolved (pr_id pending) (responses pending)]\<rparr>)
              cid tid e"
          using inv nc by (rule in_flight_delete)
        ultimately show ?thesis using nc by simp
      next
        case False
        have h: "handlePacket c q = c\<lparr>pendingResponses :=
                AList.update (pkt_id q) (pending\<lparr>responses := responses pending @ [pkt_body q]\<rparr>)
                  ?T\<rparr>"
          using Some q1 st ty False by (simp add: handlePacket_def)
        have "in_flight (handlePacket c q) cid tid
                (if pkt_id q = cid then e\<lparr>responses := responses pending @ [pkt_body q]\<rparr> else e)"
          unfolding h using inv Some by (rule in_flight_update)
        moreover have "pkt_id q = cid \<Longrightarrow> pending = e" using Some me by simp
        ultimately show ?thesis using ty by (cases "pkt_id q = cid") simp_all
      qed
    qed
  qed
qed

lemma in_flight_foldl:
  assumes "in_flight c cid tid e"
    and "\<forall>q \<in> set ps. pkt_id q \<noteq> AUTH_FAILURE_ID \<and> pkt_id q \<noteq> tid"
  shows "in_flight (foldl handlePacket c ps) cid tid
           (e\<lparr>responses := responses e @
                map pkt_body
                  (filter (\<lambda>q. pkt_id q = cid \<and> pkt_type q = SERVERDATA_RESPONSE_VALUE) ps)\<rparr>)"
  using assms
proof (induction ps arbitrary: c e)
  case Nil
  then show ?case by simp
next
  case (Cons q qs)
  let ?e' = "if pkt_id q = cid \<and> pkt_type q = SERVERDATA_RESPONSE_VALUE
             then e\<lparr>responses := responses e @ [pkt_body q]\<rparr> else e"
  have s: "in_flight (handlePacket c q) cid tid ?e'"
    using Cons.prems by (intro in_flight_step) simp_all
  have "in_flight (foldl handlePacket (handlePacket c q) qs) cid tid
          (?e'\<lparr>responses := responses ?e' @
                map pkt_body
                  (filter (\<lambda>q. pkt_id q = cid \<and> pkt_type q = SERVERDATA_RESPONSE_VALUE) qs)\<rparr>)"
    using Cons.prems by (intro Cons.IH[OF s]) simp
  then show ?case by (cases "pkt_id q = cid \<and> pkt_type q = SERVERDATA_RESPONSE_VALUE") auto
qed

lemma in_flight_terminator:
  assumes inv: "in_flight c cid tid e" and t: "pkt_id t = tid"
  shows "handlePacket c t =
           c\<lparr>pendingResponses := AList.delete cid (pendingResponses c),
             effects := effects c @ [Resolved cid (responses e)]\<rparr>"
proof -
  let ?T = "pendingResponses c"
  let ?P = "\<lambda>(commandId, p). isTerminatorOf (pkt_id t) p"
  have d: "distinct (map fst ?T)" and me: "map_of ?T cid = Some e"
    and te: "terminatorId e = Some tid" and t0: "tid \<noteq> 0" and t1: "tid \<noteq> AUTH_FAILURE_ID"
    and mt: "map_of ?T tid = None"
    using inv by (simp_all add: in_flight_def)
  have a: "\<forall>(key, p) \<in> set ?T. pr_id p = key \<and> (terminatorId p = Some tid \<longrightarrow> key = cid)"
    using inv by (simp add: in_flight_def)
  have mem: "(cid, e) \<in> set ?T" using me by (rule map_of_SomeD)
  have Pe: "?P (cid, e)" using te t t0 by (simp add: isTerminatorOf_def)
  obtain k p where f: "find ?P ?T = Some (k, p)"
    using mem Pe by (cases "find ?P ?T") (auto simp: find_None_iff)
  then have kp: "(k, p) \<in> set ?T" and Pk: "isTerminatorOf (pkt_id t) p"
    using find_SomeD[of ?P ?T "(k, p)"] by auto
  have "terminatorId p = Some tid"
    using Pk t by (auto simp: isTerminatorOf_def split: option.splits)
  then have k: "k = cid" and pr: "pr_id p = cid" using a kp by auto
  then have "p = e" using kp me d by simp
  then show ?thesis
    using f k pr t t1 mt by (simp add: handlePacket_def)
qed

text \<open>
  \<open>execute\<close> on an authenticated client with a socket and no other request pending leaves an
  execute in flight, with two consecutive request ids.
\<close>

lemma execute_in_flight:
  assumes "state c = AUTHENTICATED" and "socket c = Some sock" and "pendingResponses c = []"
    and "1 \<le> requestId c" and "requestId c \<le> 999999" and "length command \<le> 4100"
  shows "fst (execute c command) =
           Inr (requestId c, if requestId c = 999999 then 1 else requestId c + 1)
         \<and> in_flight (snd (execute c command)) (requestId c)
             (if requestId c = 999999 then 1 else requestId c + 1)
             \<lparr>pr_id = requestId c, responses = [],
              terminatorId = Some (if requestId c = 999999 then 1 else requestId c + 1)\<rparr>"
proof -
  let ?cid = "requestId c"
  let ?tid = "if requestId c = 999999 then 1 else requestId c + 1"
  have e1: "encodePacket ?cid SERVERDATA_EXECCOMMAND command =
      Inr (le_bytes (10 + int (length command)) @ le_bytes ?cid @ le_bytes 2
             @ bufferFrom_ascii command @ [0, 0])"
    using assms by (simp add: encodePacket_bytes SERVERDATA_EXECCOMMAND_def)
  have e2: "encodePacket t SERVERDATA_RESPONSE_VALUE [] =
      Inr (le_bytes 10 @ le_bytes t @ le_bytes 0 @ bufferFrom_ascii [] @ [0, 0])"
    if "1 \<le> t" "t \<le> 999999" for t
    using that encodePacket_bytes[of t 0 "[]"] by (simp add: SERVERDATA_RESPONSE_VALUE_def)
  show ?thesis
    using assms
    by (simp add: execute_def isAuthenticated_def getNextRequestId_def Let_def sendPacket_def
          e1 e2 waitForResponse_def in_flight_def AUTH_FAILURE_ID_def)
qed

text \<open>
  C3. Let an \<open>execute\<close> with ids \<open>commandId\<close> and \<open>terminatorId\<close> be in flight, and let packets
  arrive of which none is an auth failure (id \<open>-1\<close>) and none carries the terminator id.
  Then the entry's fragment list grows by the bodies of exactly the type-0 packets whose id
  is \<open>commandId\<close>, in arrival order. The first packet with the terminator id removes the
  entry and resolves it with that list, and \<open>execute\<close> returns the concatenation of the
  fragments in that order.
\<close>

theorem multi_fragment_assembly:
  assumes "in_flight c commandId terminatorId' entry"
    and "\<forall>q \<in> set ps. pkt_id q \<noteq> AUTH_FAILURE_ID \<and> pkt_id q \<noteq> terminatorId'"
    and "pkt_id t = terminatorId'"
  shows "map_of (pendingResponses (foldl handlePacket c ps)) commandId =
           Some (entry\<lparr>responses := responses entry @
                   map pkt_body
                     (filter (\<lambda>q. pkt_id q = commandId \<and> pkt_type q = SERVERDATA_RESPONSE_VALUE)
                        ps)\<rparr>)
         \<and> handlePacket (foldl handlePacket c ps) t =
             (foldl handlePacket c ps)
               \<lparr>pendingResponses :=
                  AList.delete commandId (pendingResponses (foldl handlePacket c ps)),
                effects := effects (foldl handlePacket c ps) @
                  [Resolved commandId
                     (responses entry @
                      map pkt_body
                        (filter (\<lambda>q. pkt_id q = commandId
                                       \<and> pkt_type q = SERVERDATA_RESPONSE_VALUE) ps))]\<rparr>
         \<and> execute_resume command
              (Inr (responses entry @
                    map pkt_body
                      (filter (\<lambda>q. pkt_id q = commandId
                                     \<and> pkt_type q = SERVERDATA_RESPONSE_VALUE) ps))) =
             Inr (concat (responses entry) @
                  concat (map pkt_body
                            (filter (\<lambda>q. pkt_id q = commandId
                                           \<and> pkt_type q = SERVERDATA_RESPONSE_VALUE) ps)))"
proof -
  note f = in_flight_foldl[OF assms(1,2)]
  have 1: "map_of (pendingResponses (foldl handlePacket c ps)) commandId =
           Some (entry\<lparr>responses := responses entry @
                   map pkt_body
                     (filter (\<lambda>q. pkt_id q = commandId \<and> pkt_type q = SERVERDATA_RESPONSE_VALUE)
                        ps)\<rparr>)"
    using f by (simp add: in_flight_def)
  have 2: "handlePacket (foldl handlePacket c ps) t =
             (foldl handlePacket c ps)
               \<lparr>pendingResponses :=
                  AList.delete commandId (pendingResponses (foldl handlePacket c ps)),
                effects := effects (foldl handlePacket c ps) @
                  [Resolved commandId
                     (responses entry @
                      map pkt_body
                        (filter (\<lambda>q. pkt_id q = commandId
                                       \<and> pkt_type q = SERVERDATA_RESPONSE_VALUE) ps))]\<rparr>"
    using in_flight_terminator[OF f assms(3)] by simp
  have 3: "execute_resume command
              (Inr (responses entry @
                    map pkt_body
                      (filter (\<lambda>q. pkt_id q = commandId
                                     \<and> pkt_type q = SERVERDATA_RESPONSE_VALUE) ps))) =
             Inr (concat (responses entry) @
                  concat (map pkt_body
                            (filter (\<lambda>q. pkt_id q = commandId
                                           \<and> pkt_type q = SERVERDATA_RESPONSE_VALUE) ps)))"
    by (simp add: execute_resume_def)
  from 1 2 3 show ?thesis by (intro conjI)
qed

text \<open>
  The scenarios of the specification: fragments \<open>foo\<close> and \<open>bar\<close> resolve to \<open>foobar\<close>, and no
  fragment at all resolves to the empty string.
\<close>

theorem multi_fragment_assembly_witness:
  "in_flight
     ((new_RconClient (str ''pw''))
        \<lparr>socket := Some \<lparr>written = []\<rparr>, state := AUTHENTICATED, requestId := 3,
         pendingResponses := [(1, \<lparr>pr_id = 1, responses = [], terminatorId = Some 2\<rparr>)]\<rparr>)
     1 2 \<lparr>pr_id = 1, responses = [], terminatorId = Some 2\<rparr>
   \<and> effects
       (handlePacket
          (foldl handlePacket
             ((new_RconClient (str ''pw''))
                \<lparr>socket := Some \<lparr>written = []\<rparr>, state := AUTHENTICATED, requestId := 3,
                 pendingResponses := [(1, \<lparr>pr_id = 1, responses = [], terminatorId = Some 2\<rparr>)]\<rparr>)
             [\<lparr>pkt_size = 13, pkt_id = 1, pkt_type = 0, pkt_body = str ''foo''\<rparr>,
              \<lparr>pkt_size = 13, pkt_id = 1, pkt_type = 0, pkt_body = str ''bar''\<rparr>])
          \<lparr>pkt_size = 10, pkt_id = 2, pkt_type = 0, pkt_body = []\<rparr>)
     = effects
         (foldl handlePacket
             ((new_RconClient (str ''pw''))
                \<lparr>socket := Some \<lparr>written = []\<rparr>, state := AUTHENTICATED, requestId := 3,
                 pendingResponses := [(1, \<lparr>pr_id = 1, responses = [], terminatorId = Some 2\<rparr>)]\<rparr>)
             [\<lparr>pkt_size = 13, pkt_id = 1, pkt_type = 0, pkt_body = str ''foo''\<rparr>,
              \<lparr>pkt_size = 13, pkt_id = 1, pkt_type = 0, pkt_body = str ''bar''\<rparr>])
       @ [Resolved 1 [str ''foo'', str ''bar'']]
   \<and> execute_resume (str ''list'') (Inr [str ''foo'', str ''bar'']) = Inr (str ''foobar'')
   \<and> effects
       (handlePacket
          ((new_RconClient (str ''pw''))
             \<lparr>socket := Some \<lparr>written = []\<rparr>, state := AUTHENTICATED, requestId := 3,
              pendingResponses := [(1, \<lparr>pr_id = 1, responses = [], terminatorId = Some 2\<rparr>)]\<rparr>)
          \<lparr>pkt_size = 10, pkt_id = 2, pkt_type = 0, pkt_body = []\<rparr>)
     = [Resolved 1 []]
   \<and> execute_resume (str ''list'') (Inr []) = Inr (str '''')"
proof -
  let ?c = "(new_RconClient (str ''pw''))
        \<lparr>socket := Some \<lparr>written = []\<rparr>, state := AUTHENTICATED, requestId := 3,
         pendingResponses := [(1, \<lparr>pr_id = 1, responses = [], terminatorId = Some 2\<rparr>)]\<rparr>"
  let ?e = "\<lparr>pr_id = 1, responses = [], terminatorId = Some 2\<rparr>"
  let ?foo = "\<lparr>pkt_size = 13, pkt_id = 1, pkt_type = 0, pkt_body = str ''foo''\<rparr>"
  let ?bar = "\<lparr>pkt_size = 13, pkt_id = 1, pkt_type = 0, pkt_body = str ''bar''\<rparr>"
  let ?t = "\<lparr>pkt_size = 10, pkt_id = 2, pkt_type = 0, pkt_body = []\<rparr>"
  have inv: "in_flight ?c 1 2 ?e"
    by (simp add: in_flight_def new_RconClient_def AUTH_FAILURE_ID_def)
  have ps: "\<forall>q \<in> set [?foo, ?bar]. pkt_id q \<noteq> AUTH_FAILURE_ID \<and> pkt_id q \<noteq> 2"
    by (simp add: AUTH_FAILURE_ID_def)
  have ps0: "\<forall>q \<in> set ([] :: RconPacket list). pkt_id q \<noteq> AUTH_FAILURE_ID \<and> pkt_id q \<noteq> 2"
    by simp
  have t: "pkt_id ?t = 2" by simp
  note two = multi_fragment_assembly[OF inv ps t, of "str ''list''"]
  note zero = multi_fragment_assembly[OF inv ps0 t, of "str ''list''"]
  have a: "effects (handlePacket (foldl handlePacket ?c [?foo, ?bar]) ?t)
      = effects (foldl handlePacket ?c [?foo, ?bar]) @ [Resolved 1 [str ''foo'', str ''bar'']]"
    using two by (simp add: SERVERDATA_RESPONSE_VALUE_def)
  have b: "execute_resume (str ''list'') (Inr [str ''foo'', str ''bar'']) = Inr (str ''foobar'')"
    using two by (simp add: SERVERDATA_RESPONSE_VALUE_def str_def)
  have c: "effects (handlePacket ?c ?t) = [Resolved 1 []]"
    using zero by (simp add: new_RconClient_def)
  have d: "execute_resume (str ''list'') (Inr []) = Inr (str '''')"
    using zero by (simp add: str_def)
  from inv a b c d show ?thesis by (intro conjI)
qed

section \<open>The authentication response\<close>

text \<open>
  \<open>authenticate\<close> on a connected client leaves the auth request as the only pending entry.
\<close>

lemma authenticate_pending:
  assumes "socket c = Some sock" and "pendingResponses c = []"
    and "1 \<le> requestId c" and "requestId c \<le> 999999" and "length (password c) \<le> 4100"
  shows "fst (authenticate c) = requestId c
         \<and> state (snd (authenticate c)) = AUTHENTICATING
         \<and> pendingResponses (snd (authenticate c)) =
             [(requestId c, \<lparr>pr_id = requestId c, responses = [], terminatorId = None\<rparr>)]
         \<and> socket (snd (authenticate c)) =
             Some (sock\<lparr>written := written sock @
                    [le_bytes (10 + int (length (password c))) @ le_bytes (requestId c)
                       @ le_bytes 3 @ bufferFrom_ascii (password c) @ [0, 0]]\<rparr>)"
proof -
  have e: "encodePacket i SERVERDATA_AUTH (password c) =
      Inr (le_bytes (10 + int (length (password c))) @ le_bytes i @ le_bytes 3
             @ bufferFrom_ascii (password c) @ [0, 0])"
    if "1 \<le> i" "i \<le> 999999" for i
    using that assms by (simp add: encodePacket_bytes SERVERDATA_AUTH_def)
  show ?thesis
    using assms
    by (simp add: authenticate_def setState_def getNextRequestId_def Let_def sendPacket_def e)
qed

text \<open>
  What \<open>handlePacket\<close> does in state \<open>AUTHENTICATING\<close>. A packet with id \<open>-1\<close> rejects the
  first pending entry with \<open>AUTH_FAILED\<close>; when no entry is pending it does nothing. A packet
  with the id of the auth request resolves it: the type of the packet is not looked at.
\<close>

lemma handlePacket_auth_failure:
  assumes "pendingResponses c = (authId, pending) # rest" and "pr_id pending = authId"
    and "pkt_id p = AUTH_FAILURE_ID"
  shows "handlePacket c p =
      c\<lparr>pendingResponses := AList.delete authId (pendingResponses c),
        effects := effects c @
          [Rejected authId
             (RconError AUTH_FAILED
                (Literal ''Authentication failed - incorrect password'') None)]\<rparr>"
  using assms by (simp add: handlePacket_def)

lemma handlePacket_auth_failure_nothing_pending:
  assumes "pendingResponses c = []" and "pkt_id p = AUTH_FAILURE_ID"
  shows "handlePacket c p = c"
  using assms by (simp add: handlePacket_def)

lemma handlePacket_auth_id_any_type:
  assumes "state c = AUTHENTICATING"
    and "map_of (pendingResponses c) authId = Some pending" and "pr_id pending = authId"
    and "authId \<noteq> AUTH_FAILURE_ID"
    and "pkt_id p = authId"
  shows "handlePacket c p =
      c\<lparr>pendingResponses := AList.delete authId (pendingResponses c),
        effects := effects c @ [Resolved authId []]\<rparr>"
  using assms by (simp add: handlePacket_def)

text \<open>
  The continuation of \<open>connect\<close>: a rejection tears the session down and is rethrown, a
  resolution makes the client \<open>AUTHENTICATED\<close>.
\<close>

lemma connect_resume_rejected:
  "fst (connect_resume c (Inl error)) = Inl error"
  "socket (snd (connect_resume c (Inl error))) = None"
  "pendingResponses (snd (connect_resume c (Inl error))) = []"
  "receiveBuffer (snd (connect_resume c (Inl error))) = []"
  "state (snd (connect_resume c (Inl error))) = ERROR"
  by (simp_all add: connect_resume_def Let_def cleanup_fields setState_def)

lemma connect_resume_resolved:
  "state c = AUTHENTICATING \<Longrightarrow>
     connect_resume c (Inr ()) =
       (Inr (), c\<lparr>state := AUTHENTICATED,
                  effects := effects c @ [Emit (StateChange AUTHENTICATED AUTHENTICATING),
                                          Emit Ev_authenticated]\<rparr>)"
  by (simp add: connect_resume_def setState_def Let_def)

text \<open>
  Two replies on which \<open>connect\<close> does what C4 says. The client has been connected with the
  password \<open>secret\<close>; \<open>authenticate\<close> takes the id 1. On the reply to a right password, an
  empty type-0 response with id 1 followed by a type-2 packet with id 1, \<open>connect\<close> returns
  and the client is \<open>AUTHENTICATED\<close>. On a lone type-2 packet with id \<open>-1\<close>, \<open>connect\<close> fails
  with \<open>AUTH_FAILED\<close>, the socket is destroyed and the state is \<open>ERROR\<close>.
\<close>

lemma right_password_reply_authenticates:
  "fst (connect_await
          (snd (authenticate
             ((new_RconClient (str ''secret''))
                \<lparr>socket := Some \<lparr>written = []\<rparr>, state := CONNECTED\<rparr>)))
          1
          [10, 0, 0, 0, 1, 0, 0, 0, 0, 0, 0, 0, 0, 0,
           10, 0, 0, 0, 1, 0, 0, 0, 2, 0, 0, 0, 0, 0]) = Some (Inr ())
   \<and> state (snd (connect_await
          (snd (authenticate
             ((new_RconClient (str ''secret''))
                \<lparr>socket := Some \<lparr>written = []\<rparr>, state := CONNECTED\<rparr>)))
          1
          [10, 0, 0, 0, 1, 0, 0, 0, 0, 0, 0, 0, 0, 0,
           10, 0, 0, 0, 1, 0, 0, 0, 2, 0, 0, 0, 0, 0])) = AUTHENTICATED"
  by code_simp

lemma lone_auth_failure_fails_connect:
  "fst (connect_await
          (snd (authenticate
             ((new_RconClient (str ''secret''))
                \<lparr>socket := Some \<lparr>written = []\<rparr>, state := CONNECTED\<rparr>)))
          1
          [10, 0, 0, 0, 255, 255, 255, 255, 2, 0, 0, 0, 0, 0]) =
     Some (Inl (RconError AUTH_FAILED
                  (Literal ''Authentication failed - incorrect password'') None))
   \<and> state (snd (connect_await
          (snd (authenticate
             ((new_RconClient (str ''secret''))
                \<lparr>socket := Some \<lparr>written = []\<rparr>, state := CONNECTED\<rparr>)))
          1
          [10, 0, 0, 0, 255, 255, 255, 255, 2, 0, 0, 0, 0, 0])) = ERROR
   \<and> socket (snd (connect_await
          (snd (authenticate
             ((new_RconClient (str ''secret''))
                \<lparr>socket := Some \<lparr>written = []\<rparr>, state := CONNECTED\<rparr>)))
          1
          [10, 0, 0, 0, 255, 255, 255, 255, 2, 0, 0, 0, 0, 0])) = None"
  by code_simp

text \<open>
  C4. The claim fails on the reply that a server gives to a wrong password: an empty type-0
  response with the id of the auth request, then a type-2 packet with id \<open>-1\<close>, here in one
  chunk. The client has been connected with the password \<open>secret\<close> and \<open>authenticate\<close> has
  taken the id 1. The first packet resolves the auth request; the second is handled while
  the state is still \<open>AUTHENTICATING\<close>, finds no pending entry and does nothing. \<open>connect\<close>
  returns without an error, the state is \<open>AUTHENTICATED\<close>, \<open>authenticated\<close> is emitted and the
  socket stays open.
\<close>

theorem wrong_password_reply_authenticates:
  "fst (authenticate
          ((new_RconClient (str ''secret''))
             \<lparr>socket := Some \<lparr>written = []\<rparr>, state := CONNECTED\<rparr>)) = 1
   \<and> frames [10, 0, 0, 0, 1, 0, 0, 0, 0, 0, 0, 0, 0, 0,
             10, 0, 0, 0, 255, 255, 255, 255, 2, 0, 0, 0, 0, 0] =
       ([\<lparr>pkt_size = 10, pkt_id = 1, pkt_type = 0, pkt_body = []\<rparr>,
         \<lparr>pkt_size = 10, pkt_id = - 1, pkt_type = 2, pkt_body = []\<rparr>], [])
   \<and> effects (handleData
          (snd (authenticate
             ((new_RconClient (str ''secret''))
                \<lparr>socket := Some \<lparr>written = []\<rparr>, state := CONNECTED\<rparr>)))
          [10, 0, 0, 0, 1, 0, 0, 0, 0, 0, 0, 0, 0, 0,
           10, 0, 0, 0, 255, 255, 255, 255, 2, 0, 0, 0, 0, 0]) =
       [Emit (StateChange AUTHENTICATING CONNECTED), Resolved 1 []]
   \<and> fst (connect_await
          (snd (authenticate
             ((new_RconClient (str ''secret''))
                \<lparr>socket := Some \<lparr>written = []\<rparr>, state := CONNECTED\<rparr>)))
          1
          [10, 0, 0, 0, 1, 0, 0, 0, 0, 0, 0, 0, 0, 0,
           10, 0, 0, 0, 255, 255, 255, 255, 2, 0, 0, 0, 0, 0]) = Some (Inr ())
   \<and> state (snd (connect_await
          (snd (authenticate
             ((new_RconClient (str ''secret''))
                \<lparr>socket := Some \<lparr>written = []\<rparr>, state := CONNECTED\<rparr>)))
          1
          [10, 0, 0, 0, 1, 0, 0, 0, 0, 0, 0, 0, 0, 0,
           10, 0, 0, 0, 255, 255, 255, 255, 2, 0, 0, 0, 0, 0])) = AUTHENTICATED
   \<and> effects (snd (connect_await
          (snd (authenticate
             ((new_RconClient (str ''secret''))
                \<lparr>socket := Some \<lparr>written = []\<rparr>, state := CONNECTED\<rparr>)))
          1
          [10, 0, 0, 0, 1, 0, 0, 0, 0, 0, 0, 0, 0, 0,
           10, 0, 0, 0, 255, 255, 255, 255, 2, 0, 0, 0, 0, 0])) =
       [Emit (StateChange AUTHENTICATING CONNECTED), Resolved 1 [],
        Emit (StateChange AUTHENTICATED AUTHENTICATING), Emit Ev_authenticated]
   \<and> socket (snd (connect_await
          (snd (authenticate
             ((new_RconClient (str ''secret''))
                \<lparr>socket := Some \<lparr>written = []\<rparr>, state := CONNECTED\<rparr>)))
          1
          [10, 0, 0, 0, 1, 0, 0, 0, 0, 0, 0, 0, 0, 0,
           10, 0, 0, 0, 255, 255, 255, 255, 2, 0, 0, 0, 0, 0])) \<noteq> None"
  by code_simp

end
